theory Spec2Isabelle
  imports Complex_Main "HOL-Library.Sublist" "HOL-Library.Log_Nat"
begin

section \<open>Python values as the analyzer sees them\<close>

text \<open>
  A Python \<open>str\<close> is a sequence of Unicode code points. Isabelle's \<open>char\<close> has eight
  bits only, so a string of the program is a list of code points, and \<open>ustr\<close> turns a
  literal of the source (all of them ASCII) into one.
\<close>

type_synonym pystr = "nat list"

definition ustr :: "string \<Rightarrow> pystr" where
  "ustr s = map of_char s"

text \<open>
  What \<open>json.loads\<close> returns: \<open>None\<close>, a \<open>bool\<close>, an \<open>int\<close>, a \<open>float\<close>
  (a finite double is a rational; the decoder also accepts \<open>Infinity\<close>, \<open>-Infinity\<close>
  and \<open>NaN\<close>), a \<open>str\<close>, a \<open>list\<close> or a \<open>dict\<close> with \<open>str\<close> keys. A \<open>dict\<close> is
  kept as its items; a key is looked up with \<open>map_of\<close>.
\<close>

datatype pyfloat = Finite rat | PosInf | NegInf | NaN

datatype json =
    JNull
  | JBool bool
  | JInt int
  | JFloat pyfloat
  | JStr pystr
  | JArray "json list"
  | JObject "(pystr \<times> json) list"

text \<open>
  The exceptions of the program: those that can reach the handlers of \<open>parse_log\<close>
  (of the decoder, of \<open>_process_entry\<close>, of the file), those of the division in
  \<open>generate_report\<close>, and \<open>UnicodeEncodeError\<close>, which \<open>print\<close> raises on text
  that standard output cannot encode.
\<close>

datatype py_error =
    JSONDecodeError
  | TypeError
  | AttributeError
  | KeyError
  | RecursionError
  | ValueError
  | OSError
  | UnicodeDecodeError
  | UnicodeEncodeError
  | ZeroDivisionError
  | OverflowError

text \<open>Sequencing of two steps, the first of which may raise.\<close>

definition and_then :: "py_error + 'a \<Rightarrow> ('a \<Rightarrow> py_error + 'b) \<Rightarrow> py_error + 'b" where
  "and_then m f = (case m of Inl e \<Rightarrow> Inl e | Inr x \<Rightarrow> f x)"

text \<open>
  \<open>k in v\<close> for a \<open>str\<close> key \<open>k\<close>: a key test on a \<open>dict\<close>, an element test on a
  \<open>list\<close> (only a \<open>str\<close> equals a \<open>str\<close>), a substring test on a \<open>str\<close>, and
  \<open>TypeError\<close> (argument is not iterable) on \<open>None\<close>, a \<open>bool\<close> or a number.
\<close>

fun py_contains :: "pystr \<Rightarrow> json \<Rightarrow> py_error + bool" where
  "py_contains k (JObject kvs) = Inr (map_of kvs k \<noteq> None)"
| "py_contains k (JArray xs) = Inr (JStr k \<in> set xs)"
| "py_contains k (JStr s) = Inr (sublist k s)"
| "py_contains k JNull = Inl TypeError"
| "py_contains k (JBool b) = Inl TypeError"
| "py_contains k (JInt i) = Inl TypeError"
| "py_contains k (JFloat f) = Inl TypeError"

text \<open>
  \<open>v[k]\<close> for a \<open>str\<close> key \<open>k\<close>: \<open>KeyError\<close> on a \<open>dict\<close> without the key,
  \<open>TypeError\<close> on everything that is not a \<open>dict\<close> (a \<open>list\<close> and a \<open>str\<close> want an
  integer index, the rest is not subscriptable).
\<close>

fun py_getitem :: "json \<Rightarrow> pystr \<Rightarrow> py_error + json" where
  "py_getitem (JObject kvs) k = (case map_of kvs k of None \<Rightarrow> Inl KeyError | Some v \<Rightarrow> Inr v)"
| "py_getitem JNull k = Inl TypeError"
| "py_getitem (JBool b) k = Inl TypeError"
| "py_getitem (JInt i) k = Inl TypeError"
| "py_getitem (JFloat f) k = Inl TypeError"
| "py_getitem (JStr s) k = Inl TypeError"
| "py_getitem (JArray xs) k = Inl TypeError"

text \<open>\<open>v.get(k, d)\<close>: only a \<open>dict\<close> has the method.\<close>

fun py_get :: "json \<Rightarrow> pystr \<Rightarrow> json \<Rightarrow> py_error + json" where
  "py_get (JObject kvs) k d = Inr (case map_of kvs k of None \<Rightarrow> d | Some v \<Rightarrow> v)"
| "py_get JNull k d = Inl AttributeError"
| "py_get (JBool b) k d = Inl AttributeError"
| "py_get (JInt i) k d = Inl AttributeError"
| "py_get (JFloat f) k d = Inl AttributeError"
| "py_get (JStr s) k d = Inl AttributeError"
| "py_get (JArray xs) k d = Inl AttributeError"

text \<open>The truth value of an object in a condition.\<close>

fun truthy :: "json \<Rightarrow> bool" where
  "truthy JNull = False"
| "truthy (JBool b) = b"
| "truthy (JInt i) = (i \<noteq> 0)"
| "truthy (JFloat (Finite q)) = (q \<noteq> 0)"
| "truthy (JFloat PosInf) = True"
| "truthy (JFloat NegInf) = True"
| "truthy (JFloat NaN) = True"
| "truthy (JStr s) = (s \<noteq> [])"
| "truthy (JArray xs) = (xs \<noteq> [])"
| "truthy (JObject kvs) = (kvs \<noteq> [])"

text \<open>
  A member of a Python \<open>set\<close>. Two objects are one member when they are equal, and equal
  numbers are equal across \<open>bool\<close>, \<open>int\<close> and \<open>float\<close> (\<open>True == 1 == 1.0\<close>), so a
  number is kept by its value. A \<open>list\<close> and a \<open>dict\<close> are unhashable: adding one
  raises \<open>TypeError\<close>.
\<close>

datatype hkey = HNone | HNum rat | HPosInf | HNegInf | HNaN | HStr pystr

fun set_key :: "json \<Rightarrow> py_error + hkey" where
  "set_key JNull = Inr HNone"
| "set_key (JBool b) = Inr (HNum (if b then 1 else 0))"
| "set_key (JInt i) = Inr (HNum (of_int i))"
| "set_key (JFloat (Finite q)) = Inr (HNum q)"
| "set_key (JFloat PosInf) = Inr HPosInf"
| "set_key (JFloat NegInf) = Inr HNegInf"
| "set_key (JFloat NaN) = Inr HNaN"
| "set_key (JStr s) = Inr (HStr s)"
| "set_key (JArray xs) = Inl TypeError"
| "set_key (JObject kvs) = Inl TypeError"

section \<open>The analyzer's state\<close>

text \<open>One entry of \<open>stats['failed_details']\<close>.\<close>

record failure =
  task :: json
  host :: json
  error :: json

text \<open>The dictionary \<open>self.stats\<close>, one field for each of its keys.\<close>

record stats =
  total_tasks :: nat
  changed_tasks :: nat
  failed_tasks :: nat
  skipped_tasks :: nat
  ok_tasks :: nat
  execution_time :: nat
  hosts :: "hkey set"
  failed_details :: "failure list"

text \<open>The state \<open>__init__\<close> builds.\<close>

definition empty_stats :: stats where
  "empty_stats = \<lparr>total_tasks = 0, changed_tasks = 0, failed_tasks = 0, skipped_tasks = 0,
     ok_tasks = 0, execution_time = 0, hosts = {}, failed_details = []\<rparr>"

section \<open>The aggregator: \<open>_process_entry\<close>\<close>

text \<open>
  The step returns the updated state, or the exception it raises. When it raises, the
  counters it has already incremented are not kept: the exception leaves \<open>parse_log\<close>
  through its outer handler, and \<open>main\<close> exits without reading \<open>stats\<close> again.
\<close>

text \<open>Lines 52 to 54: \<open>if 'remote_addr' in event_data: hosts.add(event_data['remote_addr'])\<close>.\<close>

definition track_hosts :: "stats \<Rightarrow> json \<Rightarrow> py_error + stats" where
  "track_hosts s event_data =
     and_then (py_contains (ustr ''remote_addr'') event_data) (\<lambda>present.
       if present then
         and_then (py_getitem event_data (ustr ''remote_addr'')) (\<lambda>addr.
         and_then (set_key addr) (\<lambda>k.
           Inr (s\<lparr>hosts := insert k (hosts s)\<rparr>)))
       else Inr s)"

text \<open>The branch of \<open>runner_on_ok\<close> (lines 58 to 61).\<close>

definition on_ok :: "stats \<Rightarrow> json \<Rightarrow> py_error + stats" where
  "on_ok s event_data =
     (let s1 = s\<lparr>total_tasks := total_tasks s + 1\<rparr>;
          s2 = s1\<lparr>ok_tasks := ok_tasks s1 + 1\<rparr>
      in and_then (py_get event_data (ustr ''changed'') (JBool False)) (\<lambda>c.
           if truthy c then Inr (s2\<lparr>changed_tasks := changed_tasks s2 + 1\<rparr>) else Inr s2))"

text \<open>
  The branch of \<open>runner_on_failed\<close> (lines 64 to 70). The three \<open>get\<close> calls are
  evaluated, in the order of the source, after the two counters are incremented and
  before the entry is appended.
\<close>

definition on_failed :: "stats \<Rightarrow> json \<Rightarrow> py_error + stats" where
  "on_failed s event_data =
     (let s1 = s\<lparr>total_tasks := total_tasks s + 1\<rparr>;
          s2 = s1\<lparr>failed_tasks := failed_tasks s1 + 1\<rparr>
      in and_then (py_get event_data (ustr ''task'') (JStr (ustr ''Unknown''))) (\<lambda>t.
         and_then (py_get event_data (ustr ''remote_addr'') (JStr (ustr ''Unknown''))) (\<lambda>h.
         and_then (py_get event_data (ustr ''msg'') (JStr (ustr ''No error message''))) (\<lambda>m.
           Inr (s2\<lparr>failed_details :=
                  failed_details s2 @ [\<lparr>task = t, host = h, error = m\<rparr>]\<rparr>)))))"

text \<open>The branch of \<open>runner_on_skipped\<close> (line 73).\<close>

definition on_skipped :: "stats \<Rightarrow> py_error + stats" where
  "on_skipped s = Inr (s\<lparr>skipped_tasks := skipped_tasks s + 1\<rparr>)"

text \<open>
  \<open>_process_entry\<close> (lines 45 to 73): the test for \<open>event_data\<close>, the hosts, and the
  chain of comparisons of \<open>entry.get('event')\<close>, which is \<open>None\<close> without the key.
\<close>

definition process_entry :: "stats \<Rightarrow> json \<Rightarrow> py_error + stats" where
  "process_entry s entry =
     and_then (py_contains (ustr ''event_data'') entry) (\<lambda>present.
       if \<not> present then Inr s
       else
         and_then (py_getitem entry (ustr ''event_data'')) (\<lambda>event_data.
         and_then (track_hosts s event_data) (\<lambda>s1.
         and_then (py_get entry (ustr ''event'') JNull) (\<lambda>ev.
           if ev = JStr (ustr ''runner_on_ok'') then on_ok s1 event_data
           else if ev = JStr (ustr ''runner_on_failed'') then on_failed s1 event_data
           else if ev = JStr (ustr ''runner_on_skipped'') then on_skipped s1
           else Inr s1))))"

section \<open>The loader: \<open>parse_log\<close>\<close>

text \<open>
  \<open>str.strip()\<close> without an argument removes the leading and the trailing characters
  that \<open>str.isspace\<close> accepts: the ASCII controls 9 to 13 and 28 to 31, the space,
  U+0085, U+00A0, U+1680, U+2000 to U+200A, U+2028, U+2029, U+202F, U+205F and U+3000.
\<close>

definition isspace :: "nat \<Rightarrow> bool" where
  "isspace c =
     ((9 \<le> c \<and> c \<le> 13) \<or> (28 \<le> c \<and> c \<le> 32) \<or> c = 133 \<or> c = 160 \<or> c = 5760 \<or>
      (8192 \<le> c \<and> c \<le> 8202) \<or> c = 8232 \<or> c = 8233 \<or> c = 8239 \<or> c = 8287 \<or> c = 12288)"

definition strip :: "pystr \<Rightarrow> pystr" where
  "strip s = rev (dropWhile isspace (rev (dropWhile isspace s)))"

text \<open>
  \<open>json.loads\<close> belongs to the standard library, so the loader takes it as a parameter
  \<open>loads\<close>: it returns the decoded value or the exception it raises:
  \<open>JSONDecodeError\<close> on text that is not JSON, and others, such as \<open>RecursionError\<close>
  on text nested too deep or \<open>ValueError\<close> on an integer of too many digits.

  The body of the \<open>for\<close> loop (lines 33 to 38): the inner handler catches
  \<open>JSONDecodeError\<close> only, and the loop goes on with the next line; any other
  exception of the decoder or of \<open>_process_entry\<close> leaves the loop.
\<close>

fun read_lines :: "(pystr \<Rightarrow> py_error + json) \<Rightarrow> stats \<Rightarrow> pystr list \<Rightarrow> py_error + stats" where
  "read_lines loads s [] = Inr s"
| "read_lines loads s (line # rest) =
     (case and_then (loads (strip line)) (process_entry s) of
        Inl e \<Rightarrow> if e = JSONDecodeError then read_lines loads s rest else Inl e
      | Inr s' \<Rightarrow> read_lines loads s' rest)"

text \<open>
  What the file system holds at a path: nothing (\<open>os.path.exists\<close> is false), something
  that \<open>open\<close> refuses with an exception, or a file that yields its lines in order and
  then ends, or raises while the next line is read (an I/O fault, undecodable bytes).
\<close>

datatype fs_entry = Missing | Unopenable py_error | Content "pystr list" "py_error option"

section \<open>Floating point: the success rate\<close>

text \<open>
  \<open>(ok / total) * 100\<close> and its rendering with \<open>.1f\<close> are computed in IEEE binary64.
  A finite double is a rational number; every operation gives the double nearest to the
  exact result, a tie going to the even significand.

  \<open>rhe\<close> rounds a rational to the nearest integer, a tie to the even one.
\<close>

definition rhe :: "rat \<Rightarrow> int" where
  "rhe x =
     (let f = \<lfloor>x\<rfloor>; d = x - of_int f
      in if d < 1 / 2 then f else if 1 / 2 < d then f + 1 else if even f then f else f + 1)"

text \<open>The binary exponent of a positive rational: \<open>2 ^ e \<le> q < 2 ^ (e + 1)\<close>.\<close>

definition ilog2 :: "rat \<Rightarrow> int" where
  "ilog2 q =
     (let (a, b) = quotient_of q; k = bitlen a - bitlen b
      in if 2 powi k \<le> q then k else k - 1)"

text \<open>
  The distance of two neighbouring doubles at \<open>q\<close>: 53 bits of significand, and the
  fixed spacing \<open>2 ^ -1074\<close> of the subnormal numbers below \<open>2 ^ -1022\<close>.
\<close>

definition ulp :: "rat \<Rightarrow> rat" where
  "ulp q = 2 powi (max (ilog2 \<bar>q\<bar>) (- 1022) - 52)"

definition nearest :: "rat \<Rightarrow> rat" where
  "nearest q = of_int (rhe (q / ulp q)) * ulp q"

text \<open>The result of an arithmetic operation whose exact value is \<open>q\<close>.\<close>

definition round_double :: "rat \<Rightarrow> pyfloat" where
  "round_double q =
     (let r = nearest q
      in if 2 powi 1024 \<le> r then PosInf
         else if r \<le> - (2 powi 1024) then NegInf
         else Finite r)"

text \<open>
  \<open>a / b\<close> on two \<open>int\<close>s, here two counters: the quotient correctly rounded,
  \<open>ZeroDivisionError\<close> on a zero divisor and \<open>OverflowError\<close> when the rounded quotient
  is out of the range of a double.
\<close>

definition py_truediv :: "nat \<Rightarrow> nat \<Rightarrow> py_error + pyfloat" where
  "py_truediv a b =
     (if b = 0 then Inl ZeroDivisionError
      else case round_double (of_nat a / of_nat b) of
             Finite r \<Rightarrow> Inr (Finite r)
           | PosInf \<Rightarrow> Inl OverflowError
           | NegInf \<Rightarrow> Inl OverflowError
           | NaN \<Rightarrow> Inl OverflowError)"

text \<open>\<open>x * 100\<close> on a \<open>float\<close>: the \<open>int\<close> is converted exactly, and overflow gives \<open>inf\<close>.\<close>

definition times_100 :: "pyfloat \<Rightarrow> pyfloat" where
  "times_100 x =
     (case x of
        Finite r \<Rightarrow> round_double (r * 100)
      | PosInf \<Rightarrow> PosInf
      | NegInf \<Rightarrow> NegInf
      | NaN \<Rightarrow> NaN)"

text \<open>Line 104: \<open>success_rate = ((ok_tasks / total_tasks) * 100)\<close>.\<close>

definition success_rate :: "nat \<Rightarrow> nat \<Rightarrow> py_error + pyfloat" where
  "success_rate ok tot = and_then (py_truediv ok tot) (\<lambda>q. Inr (times_100 q))"

text \<open>The decimal digits of a natural number, and the numeral of \<open>n\<close> tenths.\<close>

fun str_nat :: "nat \<Rightarrow> string" where
  "str_nat n =
     (if n < 10 then [''0123456789'' ! n]
      else str_nat (n div 10) @ [''0123456789'' ! (n mod 10)])"

definition one_decimal :: "nat \<Rightarrow> string" where
  "one_decimal n = str_nat (n div 10) @ ''.'' @ str_nat (n mod 10)"

text \<open>
  The format \<open>.1f\<close>: the decimal numeral with one place nearest to the value of the
  double, a tie going to the even digit.
\<close>

definition fmt_1f :: "pyfloat \<Rightarrow> string" where
  "fmt_1f x =
     (case x of
        Finite r \<Rightarrow> (if r < 0 then ''-'' else []) @ one_decimal (nat (rhe (\<bar>r\<bar> * 10)))
      | PosInf \<Rightarrow> ''inf''
      | NegInf \<Rightarrow> ''-inf''
      | NaN \<Rightarrow> ''nan'')"

section \<open>Standard output\<close>

text \<open>
  The text the program prints, line by line. A line is the pieces of its f-string: the
  literal text of the source, and the values formatted into it. \<open>Timestamp\<close> is the
  formatted \<open>datetime.now()\<close>; \<open>Exc e\<close> is the message of the exception \<open>e\<close>;
  \<open>Num n\<close> is \<open>str(n)\<close> of a counter; \<open>Val v\<close> is \<open>str(v)\<close>.
\<close>

datatype piece =
    Lit string
  | Str pystr
  | Num nat
  | Val json
  | Timestamp
  | Exc py_error

type_synonym out_line = "piece list"

text \<open>
  \<open>print\<close> can raise: \<open>UnicodeEncodeError\<close> when the encoding of standard output has
  no bytes for a character of the line, \<open>OSError\<close> when the stream is broken. Standard
  output is a parameter: it gives the exception a line raises, or \<open>None\<close> when the line
  is written. A line that raises is not written, and the statements after it do not run.
\<close>

type_synonym stdout = "out_line \<Rightarrow> py_error option"

fun prints :: "stdout \<Rightarrow> out_line list \<Rightarrow> out_line list \<times> py_error option" where
  "prints sout [] = ([], None)"
| "prints sout (l # ls) =
     (case sout l of
        Some e \<Rightarrow> ([], Some e)
      | None \<Rightarrow> (case prints sout ls of (printed, r) \<Rightarrow> (l # printed, r)))"

section \<open>\<open>parse_log\<close>\<close>

text \<open>
  \<open>parse_log\<close> returns what it printed and how it ended: \<open>Inr (Some s)\<close> is the return
  value \<open>True\<close> with the state \<open>s\<close>, \<open>Inr None\<close> is the return value \<open>False\<close>, and
  \<open>Inl e\<close> is an exception that leaves it. Both of its \<open>print\<close> calls stand outside
  the \<open>try\<close> block (line 27) or inside the handler (line 40), so what they raise is
  not caught.
\<close>

definition report_error ::
  "stdout \<Rightarrow> out_line \<Rightarrow> out_line list \<times> (py_error + stats option)" where
  "report_error sout l =
     (case prints sout [l] of
        (printed, Some e) \<Rightarrow> (printed, Inl e)
      | (printed, None) \<Rightarrow> (printed, Inr None))"

definition parse_log ::
  "(pystr \<Rightarrow> py_error + json) \<Rightarrow> (pystr \<Rightarrow> fs_entry) \<Rightarrow> stdout \<Rightarrow> pystr \<Rightarrow> stats \<Rightarrow>
     out_line list \<times> (py_error + stats option)" where
  "parse_log loads fs sout log_file s =
     (case fs log_file of
        Missing \<Rightarrow>
          report_error sout [Lit ''Error: Log file '', Str log_file, Lit '' not found'']
      | Unopenable e \<Rightarrow> report_error sout [Lit ''Error reading log file: '', Exc e]
      | Content ls fault \<Rightarrow>
          (case and_then (read_lines loads s ls)
                  (\<lambda>s'. case fault of None \<Rightarrow> Inr s' | Some e \<Rightarrow> Inl e) of
             Inl e \<Rightarrow> report_error sout [Lit ''Error reading log file: '', Exc e]
           | Inr s' \<Rightarrow> ([], Inr (Some s'))))"

section \<open>The reporter: \<open>generate_report\<close>\<close>

definition report_header :: "pystr \<Rightarrow> out_line list" where
  "report_header log_file =
     [[Lit ''ANSIBLE EXECUTION REPORT''],
      [Lit (replicate 50 CHR ''='')],
      [Lit ''Timestamp: '', Timestamp],
      [Lit ''Log file: '', Str log_file],
      []]"

definition report_statistics :: "stats \<Rightarrow> out_line list" where
  "report_statistics s =
     [[Lit ''EXECUTION STATISTICS:''],
      [Lit (replicate 30 CHR ''-'')],
      [Lit ''Total tasks: '', Num (total_tasks s)],
      [Lit ''Successful tasks: '', Num (ok_tasks s)],
      [Lit ''Changed tasks: '', Num (changed_tasks s)],
      [Lit ''Failed tasks: '', Num (failed_tasks s)],
      [Lit ''Skipped tasks: '', Num (skipped_tasks s)],
      [Lit ''Managed hosts: '', Num (card (hosts s))],
      []]"

definition report_failure :: "failure \<Rightarrow> out_line list" where
  "report_failure f =
     [[Lit ''Task: '', Val (task f)],
      [Lit ''Host: '', Val (host f)],
      [Lit ''Error: '', Val (error f)],
      []]"

definition report_failed :: "stats \<Rightarrow> out_line list" where
  "report_failed s =
     (if failed_tasks s > 0 then
        [[Lit ''FAILED TASKS DETAILS:''], [Lit (replicate 30 CHR ''-'')]]
        @ concat (map report_failure (failed_details s))
      else [])"

text \<open>The line of line 105, for the value of line 104.\<close>

definition rate_line_of :: "pyfloat \<Rightarrow> out_line" where
  "rate_line_of y = [Lit ''Success rate: '', Lit (fmt_1f y), Lit ''%'']"

text \<open>
  \<open>generate_report\<close> returns what it printed and its return value, or the exception
  that leaves it: of a \<open>print\<close>, or of the division of line 104. The lines are printed
  in the order of the source, and the first exception ends the report.
\<close>

definition generate_report ::
  "stdout \<Rightarrow> pystr \<Rightarrow> stats \<Rightarrow> out_line list \<times> (py_error + bool)" where
  "generate_report sout log_file s =
     (case prints sout (report_header log_file @ report_statistics s @ report_failed s) of
        (printed, Some e) \<Rightarrow> (printed, Inl e)
      | (printed, None) \<Rightarrow>
          if total_tasks s > 0 then
            (case success_rate (ok_tasks s) (total_tasks s) of
               Inl e \<Rightarrow> (printed, Inl e)
             | Inr y \<Rightarrow>
                 (case prints sout [rate_line_of y] of
                    (printed2, Some e) \<Rightarrow> (printed @ printed2, Inl e)
                  | (printed2, None) \<Rightarrow> (printed @ printed2, Inr (failed_tasks s = 0))))
          else (printed, Inr (failed_tasks s = 0)))"

section \<open>\<open>main\<close>\<close>

text \<open>The path of the log (lines 110 to 113): the first argument, or the fixed default.\<close>

definition log_file_arg :: "pystr list \<Rightarrow> pystr" where
  "log_file_arg argv =
     (if length argv < 2 then ustr ''/var/log/ansible/ansible.log'' else argv ! 1)"

text \<open>
  \<open>main\<close> returns the text on standard output and the exit status. An exception that
  leaves \<open>parse_log\<close> or \<open>generate_report\<close> is caught nowhere: the interpreter writes
  the traceback to standard error and the exit status is 1. What a line raises, it raises
  in its \<open>print\<close>: the flush of standard output when the interpreter exits is taken
  to succeed.
\<close>

definition main ::
  "(pystr \<Rightarrow> py_error + json) \<Rightarrow> (pystr \<Rightarrow> fs_entry) \<Rightarrow> stdout \<Rightarrow> pystr list \<Rightarrow>
     out_line list \<times> nat" where
  "main loads fs sout argv =
     (let log_file = log_file_arg argv
      in case parse_log loads fs sout log_file empty_stats of
           (printed, Inl e) \<Rightarrow> (printed, 1)
         | (printed, Inr None) \<Rightarrow> (printed, 1)
         | (printed, Inr (Some s)) \<Rightarrow>
             (case generate_report sout log_file s of
                (rep, Inl e) \<Rightarrow> (printed @ rep, 1)
              | (rep, Inr success) \<Rightarrow> (printed @ rep, if success then 0 else 1)))"

section \<open>The specification's reading of a record\<close>

text \<open>
  The definitions of this section follow the specification, not the code: what a record
  carries, and the effect the specification's table gives it. The theorems below compare
  the code with them.
\<close>

definition event_data_of :: "json \<Rightarrow> json option" where
  "event_data_of r = (case r of JObject kvs \<Rightarrow> map_of kvs (ustr ''event_data'') | _ \<Rightarrow> None)"

definition event_of :: "json \<Rightarrow> json option" where
  "event_of r = (case r of JObject kvs \<Rightarrow> map_of kvs (ustr ''event'') | _ \<Rightarrow> None)"

text \<open>A record that carries \<open>event_data\<close> and whose \<open>event\<close> is the given name.\<close>

definition is_event :: "string \<Rightarrow> json \<Rightarrow> bool" where
  "is_event name r = (event_data_of r \<noteq> None \<and> event_of r = Some (JStr (ustr name)))"

text \<open>A field of the record's \<open>event_data\<close>, when that is a mapping and has the field.\<close>

definition field_of :: "string \<Rightarrow> json \<Rightarrow> json option" where
  "field_of k r = (case event_data_of r of Some (JObject d) \<Rightarrow> map_of d (ustr k) | _ \<Rightarrow> None)"

definition or_default :: "json option \<Rightarrow> string \<Rightarrow> json" where
  "or_default v d = (case v of None \<Rightarrow> JStr (ustr d) | Some x \<Rightarrow> x)"

definition failure_of :: "json \<Rightarrow> failure" where
  "failure_of r =
     \<lparr>task = or_default (field_of ''task'' r) ''Unknown'',
      host = or_default (field_of ''remote_addr'' r) ''Unknown'',
      error = or_default (field_of ''msg'' r) ''No error message''\<rparr>"

text \<open>The member of \<open>hosts\<close> a record contributes: its \<open>remote_addr\<close>, when it has one.\<close>

definition host_keys :: "json \<Rightarrow> hkey list" where
  "host_keys r =
     (case field_of ''remote_addr'' r of
        None \<Rightarrow> []
      | Some a \<Rightarrow> (case set_key a of Inl e \<Rightarrow> [] | Inr k \<Rightarrow> [k]))"

definition changed_of :: "json \<Rightarrow> bool" where
  "changed_of r = (case field_of ''changed'' r of None \<Rightarrow> False | Some c \<Rightarrow> truthy c)"

text \<open>The table of the specification's section 4.2.\<close>

definition effect :: "stats \<Rightarrow> json \<Rightarrow> stats" where
  "effect s r =
     (if event_data_of r = None then s
      else
        let s1 = s\<lparr>hosts := hosts s \<union> set (host_keys r)\<rparr> in
        if is_event ''runner_on_ok'' r then
          s1\<lparr>total_tasks := total_tasks s1 + 1, ok_tasks := ok_tasks s1 + 1,
             changed_tasks := changed_tasks s1 + (if changed_of r then 1 else 0)\<rparr>
        else if is_event ''runner_on_failed'' r then
          s1\<lparr>total_tasks := total_tasks s1 + 1, failed_tasks := failed_tasks s1 + 1,
             failed_details := failed_details s1 @ [failure_of r]\<rparr>
        else if is_event ''runner_on_skipped'' r then
          s1\<lparr>skipped_tasks := skipped_tasks s1 + 1\<rparr>
        else s1)"

text \<open>The records the loader hands to the aggregator: the lines that decode, in order.\<close>

definition decoded :: "(pystr \<Rightarrow> py_error + json) \<Rightarrow> pystr list \<Rightarrow> json list" where
  "decoded loads ls =
     concat (map (\<lambda>l. case loads (strip l) of Inl e \<Rightarrow> [] | Inr r \<Rightarrow> [r]) ls)"

text \<open>
  The record of the specification's data model: a mapping whose \<open>event_data\<close>, when
  present, is a mapping, and whose \<open>remote_addr\<close>, when present, can be a member of a
  set (it is no \<open>list\<close> and no \<open>dict\<close>).
\<close>

definition hashable :: "json \<Rightarrow> bool" where
  "hashable a = (case a of JArray xs \<Rightarrow> False | JObject kvs \<Rightarrow> False | _ \<Rightarrow> True)"

definition log_record :: "json \<Rightarrow> bool" where
  "log_record r =
     (case r of
        JObject kvs \<Rightarrow>
          (case map_of kvs (ustr ''event_data'') of
             None \<Rightarrow> True
           | Some (JObject d) \<Rightarrow>
               (case map_of d (ustr ''remote_addr'') of None \<Rightarrow> True | Some a \<Rightarrow> hashable a)
           | Some _ \<Rightarrow> False)
      | _ \<Rightarrow> False)"

text \<open>
  A line of a well-formed log: it does not decode (and is skipped), or it decodes to a
  record of the data model.
\<close>

definition well_formed_line :: "(pystr \<Rightarrow> py_error + json) \<Rightarrow> pystr \<Rightarrow> bool" where
  "well_formed_line loads l =
     (case loads (strip l) of Inl e \<Rightarrow> e = JSONDecodeError | Inr r \<Rightarrow> log_record r)"

text \<open>A line of the report that opens with the literal text of the success-rate line.\<close>

definition rate_line :: "out_line \<Rightarrow> bool" where
  "rate_line l = (case l of Lit t # rest \<Rightarrow> t = ''Success rate: '' | _ \<Rightarrow> False)"

section \<open>The specification's concrete scenario\<close>

text \<open>
  The lines of the specification's example log, a skipped task and the bare number
  \<open>5\<close>, with the values \<open>json.loads\<close> gives them, and a line of 100000 opening
  brackets, on which \<open>json.loads\<close> raises \<open>RecursionError\<close>. \<open>scenario_loads\<close> is
  \<open>json.loads\<close> on these texts; on every other text, among them \<open>not json\<close> and the
  empty one, it raises \<open>JSONDecodeError\<close>. The examples below run on it.
\<close>

definition deep_text :: pystr where
  "deep_text = replicate 100000 91"

definition ok_text :: pystr where
  \<open>ok_text = ustr ''{"event":"runner_on_ok","event_data":{"remote_addr":"10.0.0.1","changed":true}}''\<close>

definition failed_text :: pystr where
  \<open>failed_text = ustr ''{"event":"runner_on_failed","event_data":{"remote_addr":"10.0.0.2","task":"install pkg","msg":"timeout"}}''\<close>

definition skipped_text :: pystr where
  \<open>skipped_text = ustr ''{"event":"runner_on_skipped","event_data":{"remote_addr":"10.0.0.1","changed":true}}''\<close>

definition ok_record :: json where
  "ok_record = JObject
    [(ustr ''event'', JStr (ustr ''runner_on_ok'')),
     (ustr ''event_data'', JObject
        [(ustr ''remote_addr'', JStr (ustr ''10.0.0.1'')), (ustr ''changed'', JBool True)])]"

definition failed_record :: json where
  "failed_record = JObject
    [(ustr ''event'', JStr (ustr ''runner_on_failed'')),
     (ustr ''event_data'', JObject
        [(ustr ''remote_addr'', JStr (ustr ''10.0.0.2'')),
         (ustr ''task'', JStr (ustr ''install pkg'')),
         (ustr ''msg'', JStr (ustr ''timeout''))])]"

definition skipped_record :: json where
  "skipped_record = JObject
    [(ustr ''event'', JStr (ustr ''runner_on_skipped'')),
     (ustr ''event_data'', JObject
        [(ustr ''remote_addr'', JStr (ustr ''10.0.0.1'')), (ustr ''changed'', JBool True)])]"

definition scenario_loads :: "pystr \<Rightarrow> py_error + json" where
  "scenario_loads t =
     (if t = ok_text then Inr ok_record
      else if t = failed_text then Inr failed_record
      else if t = skipped_text then Inr skipped_record
      else if t = ustr ''5'' then Inr (JInt 5)
      else if t = deep_text then Inl RecursionError
      else Inl JSONDecodeError)"

definition scenario_lines :: "pystr list" where
  "scenario_lines = [ok_text @ [10], failed_text @ [10], ustr ''not json'' @ [10]]"

definition scenario_stats :: stats where
  "scenario_stats =
     \<lparr>total_tasks = 2, changed_tasks = 1, failed_tasks = 1, skipped_tasks = 0, ok_tasks = 1,
      execution_time = 0, hosts = {HStr (ustr ''10.0.0.1''), HStr (ustr ''10.0.0.2'')},
      failed_details = [\<lparr>task = JStr (ustr ''install pkg''), host = JStr (ustr ''10.0.0.2''),
                         error = JStr (ustr ''timeout'')\<rparr>]\<rparr>"

text \<open>A \<open>runner_on_failed\<close> record whose \<open>event_data\<close> has no field at all.\<close>

definition bare_failed_record :: json where
  "bare_failed_record = JObject
    [(ustr ''event'', JStr (ustr ''runner_on_failed'')), (ustr ''event_data'', JObject [])]"

text \<open>A file system that holds one readable log and nothing else, and a command line.\<close>

definition single_file :: "pystr \<Rightarrow> pystr list \<Rightarrow> pystr \<Rightarrow> fs_entry" where
  "single_file p ls q = (if q = p then Content ls None else Missing)"

definition scenario_argv :: "pystr list" where
  "scenario_argv = [ustr ''log-analyzer.py'', ustr ''run.log'']"

text \<open>
  Standard output in a UTF-8 locale: the encoding is UTF-8 and its error handler is
  \<open>strict\<close>, so \<open>print\<close> raises \<open>UnicodeEncodeError\<close> exactly on a line that holds
  a surrogate code point (U+D800 to U+DFFF). Only a path and the \<open>str\<close> of a string can
  hold one: the literal text, the numbers, the timestamp and the messages of the
  exceptions are ASCII or escaped, and the \<open>str\<close> of a list or of a dictionary escapes
  the surrogates of the strings in it.
\<close>

definition surrogate :: "nat \<Rightarrow> bool" where
  "surrogate c = (55296 \<le> c \<and> c \<le> 57343)"

fun encodable :: "piece \<Rightarrow> bool" where
  "encodable (Str p) = (\<not> list_ex surrogate p)"
| "encodable (Val (JStr t)) = (\<not> list_ex surrogate t)"
| "encodable (Val v) = True"
| "encodable (Lit t) = True"
| "encodable (Num n) = True"
| "encodable Timestamp = True"
| "encodable (Exc e) = True"

definition utf8_strict :: stdout where
  "utf8_strict l = (if list_all encodable l then None else Some UnicodeEncodeError)"

text \<open>A standard output that writes every line.\<close>

definition lenient :: stdout where
  "lenient l = None"

text \<open>
  A path whose name holds the byte FF, which the command line hands to the program as the
  lone surrogate U+DCFF; and a failed task whose name is that surrogate, written
  \<open>\\udcff\<close> in the JSON text.
\<close>

definition surrogate_path :: pystr where
  "surrogate_path = ustr ''run'' @ [56575] @ ustr ''.log''"

definition surrogate_record :: json where
  "surrogate_record = JObject
    [(ustr ''event'', JStr (ustr ''runner_on_failed'')),
     (ustr ''event_data'', JObject [(ustr ''task'', JStr [56575])])]"

definition surrogate_stats :: stats where
  "surrogate_stats =
     \<lparr>total_tasks = 1, changed_tasks = 0, failed_tasks = 1, skipped_tasks = 0, ok_tasks = 0,
      execution_time = 0, hosts = {},
      failed_details = [\<lparr>task = JStr [56575], host = JStr (ustr ''Unknown''),
                         error = JStr (ustr ''No error message'')\<rparr>]\<rparr>"

section \<open>One step of the aggregator\<close>

lemma ustr_eq: "(ustr a = ustr b) = (a = b)"
  by (simp add: ustr_def inj_map_eq_map[OF inj_of_char])

lemma and_then_Inr: "and_then m f = Inr y \<longleftrightarrow> (\<exists>x. m = Inr x \<and> f x = Inr y)"
  by (cases m) (simp_all add: and_then_def)

lemma py_get_Inr:
  "py_get v k d = Inr x \<Longrightarrow>
     \<exists>kvs. v = JObject kvs \<and> x = (case map_of kvs k of None \<Rightarrow> d | Some y \<Rightarrow> y)"
  by (cases v) auto

lemma py_getitem_Inr: "py_getitem v k = Inr x \<Longrightarrow> \<exists>kvs. v = JObject kvs \<and> map_of kvs k = Some x"
  by (cases v) (auto split: option.splits)

lemma track_hosts_object:
  "track_hosts s (JObject d) = Inr s1 \<Longrightarrow>
     \<exists>ks. ks = (case map_of d (ustr ''remote_addr'') of None \<Rightarrow> []
                  | Some a \<Rightarrow> (case set_key a of Inl e \<Rightarrow> [] | Inr k \<Rightarrow> [k])) \<and>
          s1 = s\<lparr>hosts := hosts s \<union> set ks\<rparr>"
  by (auto simp: track_hosts_def and_then_Inr split: if_splits option.splits sum.splits)

lemma track_hosts_other:
  "track_hosts s ed = Inr s1 \<Longrightarrow> \<forall>d. ed \<noteq> JObject d \<Longrightarrow> s1 = s"
  by (cases ed) (auto simp: track_hosts_def and_then_Inr split: if_splits)

lemma track_hosts_effect:
  assumes "track_hosts s ed = Inr s1" and "event_data_of r = Some ed"
  shows "s1 = s\<lparr>hosts := hosts s \<union> set (host_keys r)\<rparr>"
proof (cases "\<exists>d. ed = JObject d")
  case True
  then obtain d where "ed = JObject d" by blast
  with assms track_hosts_object[of s d s1] show ?thesis
    by (simp add: host_keys_def field_of_def)
next
  case False
  with assms have "s1 = s" by (simp add: track_hosts_other)
  moreover from False assms have "host_keys r = []"
    by (cases ed) (simp_all add: host_keys_def field_of_def)
  ultimately show ?thesis by simp
qed

lemma on_ok_Inr:
  assumes "on_ok s ed = Inr s'" and "event_data_of r = Some ed"
  shows "s' = s\<lparr>total_tasks := total_tasks s + 1, ok_tasks := ok_tasks s + 1,
               changed_tasks := changed_tasks s + (if changed_of r then 1 else 0)\<rparr>"
proof -
  from assms(1) obtain c where c: "py_get ed (ustr ''changed'') (JBool False) = Inr c"
    and s': "s' = (if truthy c then s\<lparr>total_tasks := total_tasks s + 1, ok_tasks := ok_tasks s + 1,
               changed_tasks := changed_tasks s + 1\<rparr>
             else s\<lparr>total_tasks := total_tasks s + 1, ok_tasks := ok_tasks s + 1\<rparr>)"
    by (auto simp: on_ok_def Let_def and_then_Inr split: if_splits)
  from c obtain d where d: "ed = JObject d"
    and cv: "c = (case map_of d (ustr ''changed'') of None \<Rightarrow> JBool False | Some y \<Rightarrow> y)"
    by (auto dest: py_get_Inr)
  from d cv assms(2) have "changed_of r = truthy c"
    by (simp add: changed_of_def field_of_def split: option.splits)
  with s' show ?thesis by simp
qed

lemma on_failed_Inr:
  assumes "on_failed s ed = Inr s'" and "event_data_of r = Some ed"
  shows "s' = s\<lparr>total_tasks := total_tasks s + 1, failed_tasks := failed_tasks s + 1,
               failed_details := failed_details s @ [failure_of r]\<rparr>"
proof -
  from assms(1) obtain t h m where
    t: "py_get ed (ustr ''task'') (JStr (ustr ''Unknown'')) = Inr t" and
    h: "py_get ed (ustr ''remote_addr'') (JStr (ustr ''Unknown'')) = Inr h" and
    m: "py_get ed (ustr ''msg'') (JStr (ustr ''No error message'')) = Inr m" and
    s': "s' = s\<lparr>total_tasks := total_tasks s + 1, failed_tasks := failed_tasks s + 1,
               failed_details := failed_details s @ [\<lparr>task = t, host = h, error = m\<rparr>]\<rparr>"
    by (auto simp: on_failed_def Let_def and_then_Inr)
  from t obtain d where d: "ed = JObject d" by (auto dest: py_get_Inr)
  from t h m d assms(2) have "failure_of r = \<lparr>task = t, host = h, error = m\<rparr>"
    by (auto simp: failure_of_def field_of_def or_default_def)
  with s' show ?thesis by simp
qed

lemma process_entry_no_event_data:
  assumes "process_entry s r = Inr s'" and "event_data_of r = None"
  shows "s' = s"
proof (cases r)
  case (JObject kvs)
  with assms show ?thesis
    by (simp add: process_entry_def and_then_def event_data_of_def)
qed (use assms in \<open>auto simp: process_entry_def and_then_Inr dest!: py_getitem_Inr split: if_splits\<close>)

lemma process_entry_event_data:
  assumes "event_data_of r = Some ed"
  shows "process_entry s r =
     and_then (track_hosts s ed) (\<lambda>s1.
       if is_event ''runner_on_ok'' r then on_ok s1 ed
       else if is_event ''runner_on_failed'' r then on_failed s1 ed
       else if is_event ''runner_on_skipped'' r then on_skipped s1
       else Inr s1)"
proof -
  from assms obtain kvs where r: "r = JObject kvs" and ed: "map_of kvs (ustr ''event_data'') = Some ed"
    by (cases r) (simp_all add: event_data_of_def)
  have ev: "is_event name r \<longleftrightarrow>
      (case map_of kvs (ustr ''event'') of None \<Rightarrow> JNull | Some v \<Rightarrow> v) = JStr (ustr name)" for name
    using r ed by (simp add: is_event_def event_data_of_def event_of_def split: option.splits)
  show ?thesis
    unfolding ev using r ed by (simp add: process_entry_def and_then_def)
qed

text \<open>Whenever the step returns, it has done what the specification's table says.\<close>

lemma process_entry_effect:
  assumes "process_entry s r = Inr s'"
  shows "s' = effect s r"
proof (cases "event_data_of r")
  case None
  with assms have "s' = s" by (rule process_entry_no_event_data)
  with None show ?thesis by (simp add: effect_def)
next
  case (Some ed)
  define s1 where "s1 = s\<lparr>hosts := hosts s \<union> set (host_keys r)\<rparr>"
  from assms obtain s0 where s0: "track_hosts s ed = Inr s0" and
    rest: "(if is_event ''runner_on_ok'' r then on_ok s0 ed
       else if is_event ''runner_on_failed'' r then on_failed s0 ed
       else if is_event ''runner_on_skipped'' r then on_skipped s0
       else Inr s0) = Inr s'"
    by (auto simp: process_entry_event_data[OF Some] and_then_Inr)
  have "s0 = s1"
    unfolding s1_def using s0 Some by (rule track_hosts_effect)
  note rest = rest[unfolded this]
  have eff: "effect s r = (if is_event ''runner_on_ok'' r then
          s1\<lparr>total_tasks := total_tasks s1 + 1, ok_tasks := ok_tasks s1 + 1,
             changed_tasks := changed_tasks s1 + (if changed_of r then 1 else 0)\<rparr>
        else if is_event ''runner_on_failed'' r then
          s1\<lparr>total_tasks := total_tasks s1 + 1, failed_tasks := failed_tasks s1 + 1,
             failed_details := failed_details s1 @ [failure_of r]\<rparr>
        else if is_event ''runner_on_skipped'' r then
          s1\<lparr>skipped_tasks := skipped_tasks s1 + 1\<rparr>
        else s1)"
    unfolding effect_def s1_def Let_def using Some by simp
  show ?thesis
  proof (cases "is_event ''runner_on_ok'' r")
    case True
    with rest have "on_ok s1 ed = Inr s'" by simp
    from on_ok_Inr[OF this Some] True show ?thesis unfolding eff by simp
  next
    case nok: False
    show ?thesis
    proof (cases "is_event ''runner_on_failed'' r")
      case True
      with rest nok have "on_failed s1 ed = Inr s'" by simp
      from on_failed_Inr[OF this Some] True nok show ?thesis unfolding eff by simp
    next
      case nfailed: False
      show ?thesis
      proof (cases "is_event ''runner_on_skipped'' r")
        case True
        with rest nok nfailed have "on_skipped s1 = Inr s'" by simp
        then have "s' = s1\<lparr>skipped_tasks := skipped_tasks s1 + 1\<rparr>"
          by (simp add: on_skipped_def)
        with True nok nfailed show ?thesis unfolding eff by simp
      next
        case False
        with rest nok nfailed have "s' = s1" by simp
        with False nok nfailed show ?thesis unfolding eff by simp
      qed
    qed
  qed
qed


section \<open>A whole run of the loader\<close>


lemma and_then_Inl: "and_then m f = Inl e \<longleftrightarrow> m = Inl e \<or> (\<exists>x. m = Inr x \<and> f x = Inl e)"
  by (cases m) (simp_all add: and_then_def)

lemma py_contains_Inl: "py_contains k v = Inl e \<Longrightarrow> e = TypeError"
  by (cases v) auto

lemma py_getitem_Inl: "py_getitem v k = Inl e \<Longrightarrow> e = TypeError \<or> e = KeyError"
  by (cases v) (auto split: option.splits)

lemma py_get_Inl: "py_get v k d = Inl e \<Longrightarrow> e = AttributeError"
  by (cases v) auto

lemma set_key_Inl: "set_key v = Inl e \<Longrightarrow> e = TypeError"
  by (cases v rule: set_key.cases) auto

lemma track_hosts_Inl: "track_hosts s ed = Inl e \<Longrightarrow> e \<noteq> JSONDecodeError"
  by (auto simp: track_hosts_def and_then_Inl split: if_splits
      dest: py_contains_Inl py_getitem_Inl set_key_Inl)

lemma on_ok_Inl: "on_ok s ed = Inl e \<Longrightarrow> e \<noteq> JSONDecodeError"
  by (auto simp: on_ok_def Let_def and_then_Inl split: if_splits dest: py_get_Inl)

lemma on_failed_Inl: "on_failed s ed = Inl e \<Longrightarrow> e \<noteq> JSONDecodeError"
  by (auto simp: on_failed_def Let_def and_then_Inl dest: py_get_Inl)

lemma process_entry_Inl: "process_entry s r = Inl e \<Longrightarrow> e \<noteq> JSONDecodeError"
  by (auto simp: process_entry_def and_then_Inl on_skipped_def split: if_splits
      dest: py_contains_Inl py_getitem_Inl py_get_Inl track_hosts_Inl on_ok_Inl on_failed_Inl)

lemma read_lines_skip:
  "loads (strip l) = Inl JSONDecodeError \<Longrightarrow> read_lines loads s (l # rest) = read_lines loads s rest"
  by (simp add: and_then_def)

lemma read_lines_decoded:
  assumes "loads (strip l) = Inr r"
  shows "read_lines loads s (l # rest) =
           and_then (process_entry s r) (\<lambda>s'. read_lines loads s' rest)"
proof (cases "process_entry s r")
  case (Inl e)
  with assms process_entry_Inl[OF Inl] show ?thesis by (simp add: and_then_def)
next
  case (Inr s')
  with assms show ?thesis by (simp add: and_then_def)
qed

lemma read_lines_append:
  "read_lines loads s (xs @ ys) = and_then (read_lines loads s xs) (\<lambda>s'. read_lines loads s' ys)"
proof (induction xs arbitrary: s)
  case Nil
  show ?case by (simp add: and_then_def)
next
  case (Cons l xs)
  show ?case
  proof (cases "and_then (loads (strip l)) (process_entry s)")
    case (Inl e)
    then show ?thesis using Cons.IH[of s] by (simp add: and_then_def)
  next
    case (Inr s')
    then show ?thesis using Cons.IH[of s'] by simp
  qed
qed

lemma read_lines_effect:
  "read_lines loads s ls = Inr s' \<Longrightarrow> s' = foldl effect s (decoded loads ls)"
proof (induction ls arbitrary: s)
  case Nil
  then show ?case by (simp add: decoded_def)
next
  case (Cons l ls)
  show ?case
  proof (cases "loads (strip l)")
    case (Inl e)
    with Cons.prems have "read_lines loads s ls = Inr s'"
      by (simp add: and_then_def split: if_splits)
    from Cons.IH[OF this] Inl show ?thesis by (simp add: decoded_def)
  next
    case (Inr r)
    from Cons.prems have "and_then (process_entry s r) (\<lambda>s1. read_lines loads s1 ls) = Inr s'"
      using read_lines_decoded[of loads l r s ls] Inr by simp
    then obtain s1 where s1: "process_entry s r = Inr s1"
      and rest: "read_lines loads s1 ls = Inr s'"
      by (auto simp: and_then_Inr)
    from s1 have "s1 = effect s r" by (rule process_entry_effect)
    with Cons.IH[OF rest] Inr show ?thesis by (simp add: decoded_def)
  qed
qed

lemma no_event_data: "event_data_of r = None \<Longrightarrow> \<not> is_event name r"
  by (simp add: is_event_def)

lemma is_event_excl: "is_event a r \<Longrightarrow> is_event b r \<Longrightarrow> a = b"
  by (auto simp: is_event_def ustr_eq)

lemma ok_tasks_effect:
  "ok_tasks (effect s r) = ok_tasks s + (if is_event ''runner_on_ok'' r then 1 else 0)"
  by (simp add: effect_def Let_def no_event_data)

lemma failed_tasks_effect:
  "failed_tasks (effect s r) = failed_tasks s + (if is_event ''runner_on_failed'' r then 1 else 0)"
  by (auto simp: effect_def Let_def no_event_data dest: is_event_excl)

lemma skipped_tasks_effect:
  "skipped_tasks (effect s r) = skipped_tasks s + (if is_event ''runner_on_skipped'' r then 1 else 0)"
  by (auto simp: effect_def Let_def no_event_data dest: is_event_excl)

lemma total_tasks_effect:
  "total_tasks (effect s r) = total_tasks s + (if is_event ''runner_on_ok'' r then 1 else 0)
      + (if is_event ''runner_on_failed'' r then 1 else 0)"
  by (auto simp: effect_def Let_def no_event_data dest: is_event_excl)

lemma changed_tasks_effect:
  "changed_tasks (effect s r) =
     changed_tasks s + (if is_event ''runner_on_ok'' r \<and> changed_of r then 1 else 0)"
  by (auto simp: effect_def Let_def no_event_data dest: is_event_excl)

lemma failed_details_effect:
  "failed_details (effect s r) =
     failed_details s @ (if is_event ''runner_on_failed'' r then [failure_of r] else [])"
  by (auto simp: effect_def Let_def no_event_data dest: is_event_excl)

lemma host_keys_no_event_data: "event_data_of r = None \<Longrightarrow> host_keys r = []"
  by (simp add: host_keys_def field_of_def)

lemma hosts_effect: "hosts (effect s r) = hosts s \<union> set (host_keys r)"
  by (simp add: effect_def Let_def host_keys_no_event_data)

lemma ok_tasks_foldl:
  "ok_tasks (foldl effect s rs) = ok_tasks s + length (filter (is_event ''runner_on_ok'') rs)"
  by (induction rs arbitrary: s) (simp_all add: ok_tasks_effect)

lemma failed_tasks_foldl:
  "failed_tasks (foldl effect s rs) = failed_tasks s + length (filter (is_event ''runner_on_failed'') rs)"
  by (induction rs arbitrary: s) (simp_all add: failed_tasks_effect)

lemma skipped_tasks_foldl:
  "skipped_tasks (foldl effect s rs) = skipped_tasks s + length (filter (is_event ''runner_on_skipped'') rs)"
  by (induction rs arbitrary: s) (simp_all add: skipped_tasks_effect)

lemma total_tasks_foldl:
  "total_tasks (foldl effect s rs) = total_tasks s + length (filter (is_event ''runner_on_ok'') rs)
     + length (filter (is_event ''runner_on_failed'') rs)"
  by (induction rs arbitrary: s) (simp_all add: total_tasks_effect)

lemma changed_tasks_foldl:
  "changed_tasks (foldl effect s rs) =
     changed_tasks s + length (filter (\<lambda>r. is_event ''runner_on_ok'' r \<and> changed_of r) rs)"
  by (induction rs arbitrary: s) (simp_all add: changed_tasks_effect)

lemma failed_details_foldl:
  "failed_details (foldl effect s rs) =
     failed_details s @ map failure_of (filter (is_event ''runner_on_failed'') rs)"
  by (induction rs arbitrary: s) (simp_all add: failed_details_effect)

lemma hosts_foldl:
  "hosts (foldl effect s rs) = hosts s \<union> set (concat (map host_keys rs))"
  by (induction rs arbitrary: s) (auto simp: hosts_effect)


lemma read_lines_take:
  assumes "read_lines loads s ls = Inr s'"
  shows "\<exists>s1. read_lines loads s (take n ls) = Inr s1"
proof -
  have "and_then (read_lines loads s (take n ls)) (\<lambda>s1. read_lines loads s1 (drop n ls)) = Inr s'"
    using read_lines_append[of loads s "take n ls" "drop n ls"] assms by simp
  then show ?thesis by (auto simp: and_then_Inr)
qed

lemma invariant_foldl_empty:
  "total_tasks (foldl effect empty_stats rs) =
     ok_tasks (foldl effect empty_stats rs) + failed_tasks (foldl effect empty_stats rs)"
  by (simp add: total_tasks_foldl ok_tasks_foldl failed_tasks_foldl empty_stats_def)

lemma read_lines_member:
  "read_lines loads s ls = Inr s' \<Longrightarrow> r \<in> set (decoded loads ls) \<Longrightarrow>
     \<exists>s0 s1. process_entry s0 r = Inr s1"
proof (induction ls arbitrary: s)
  case Nil
  then show ?case by (simp add: decoded_def)
next
  case (Cons l ls)
  show ?case
  proof (cases "loads (strip l)")
    case (Inl e)
    with Cons.prems have "read_lines loads s ls = Inr s'" and "r \<in> set (decoded loads ls)"
      by (simp_all add: and_then_def decoded_def split: if_splits)
    then show ?thesis by (rule Cons.IH)
  next
    case (Inr r0)
    from Cons.prems(1) have "and_then (process_entry s r0) (\<lambda>s1. read_lines loads s1 ls) = Inr s'"
      using read_lines_decoded[of loads l r0 s ls] Inr by simp
    then obtain s1 where s1: "process_entry s r0 = Inr s1"
      and rest: "read_lines loads s1 ls = Inr s'"
      by (auto simp: and_then_Inr)
    from Cons.prems(2) Inr have "r = r0 \<or> r \<in> set (decoded loads ls)"
      by (simp add: decoded_def)
    then show ?thesis
    proof
      assume "r = r0"
      with s1 show ?thesis by blast
    next
      assume "r \<in> set (decoded loads ls)"
      with rest show ?thesis by (rule Cons.IH)
    qed
  qed
qed

lemma process_entry_hashable:
  assumes "process_entry s r = Inr s'" and "field_of ''remote_addr'' r = Some a"
  shows "\<exists>k. set_key a = Inr k"
proof -
  from assms(2) obtain d where ed: "event_data_of r = Some (JObject d)"
    and a: "map_of d (ustr ''remote_addr'') = Some a"
    by (auto simp: field_of_def split: option.splits json.splits)
  from assms(1) obtain s1 where "track_hosts s (JObject d) = Inr s1"
    by (auto simp: process_entry_event_data[OF ed] and_then_Inr)
  with a show ?thesis
    by (auto simp: track_hosts_def and_then_Inr)
qed

lemma length_filter_conj_le:
  "length (filter (\<lambda>x. P x \<and> Q x) xs) \<le> length (filter P xs)"
  by (induction xs) simp_all

lemma read_lines_insert_skipped:
  assumes "loads (strip g) = Inl JSONDecodeError"
  shows "read_lines loads s (xs @ g # ys) = read_lines loads s (xs @ ys)"
proof -
  have "read_lines loads s (xs @ g # ys) =
          and_then (read_lines loads s xs) (\<lambda>s'. read_lines loads s' (g # ys))"
    by (rule read_lines_append)
  also have "\<dots> = and_then (read_lines loads s xs) (\<lambda>s'. read_lines loads s' ys)"
    by (simp only: read_lines_skip[of loads g, OF assms])
  also have "\<dots> = read_lines loads s (xs @ ys)"
    by (rule read_lines_append[symmetric])
  finally show ?thesis .
qed

lemma hashable_set_key: "hashable a \<Longrightarrow> \<exists>k. set_key a = Inr k"
  by (cases a rule: set_key.cases) (simp_all add: hashable_def)

lemma track_hosts_total:
  assumes "case map_of d (ustr ''remote_addr'') of None \<Rightarrow> True | Some a \<Rightarrow> hashable a"
  shows "\<exists>s1. track_hosts s (JObject d) = Inr s1"
proof (cases "map_of d (ustr ''remote_addr'')")
  case None
  then show ?thesis by (simp add: track_hosts_def and_then_def)
next
  case (Some a)
  with assms obtain k where "set_key a = Inr k" by (auto dest: hashable_set_key)
  with Some show ?thesis by (simp add: track_hosts_def and_then_def)
qed

lemma log_record_returns:
  assumes "log_record r"
  shows "\<exists>s'. process_entry s r = Inr s'"
proof -
  from assms obtain kvs where r: "r = JObject kvs"
    by (cases r) (simp_all add: log_record_def)
  show ?thesis
  proof (cases "map_of kvs (ustr ''event_data'')")
    case None
    with r show ?thesis by (simp add: process_entry_def and_then_def)
  next
    case (Some ed)
    with assms r obtain d where d: "ed = JObject d"
      and h: "case map_of d (ustr ''remote_addr'') of None \<Rightarrow> True | Some a \<Rightarrow> hashable a"
      by (cases ed) (simp_all add: log_record_def)
    from track_hosts_total[OF h] obtain s1 where s1: "track_hosts s (JObject d) = Inr s1"
      by blast
    have "event_data_of r = Some (JObject d)"
      using r Some d by (simp add: event_data_of_def)
    from process_entry_event_data[OF this] s1 show ?thesis
      by (simp add: and_then_def on_ok_def on_failed_def on_skipped_def Let_def)
  qed
qed

text \<open>On a well-formed log the read loop returns.\<close>

lemma read_lines_total:
  "list_all (well_formed_line loads) ls \<Longrightarrow> \<exists>s'. read_lines loads s ls = Inr s'"
proof (induction ls arbitrary: s)
  case Nil
  show ?case by simp
next
  case (Cons l ls)
  then have wf: "well_formed_line loads l" and rest: "list_all (well_formed_line loads) ls"
    by simp_all
  show ?case
  proof (cases "loads (strip l)")
    case (Inl e)
    with wf have "loads (strip l) = Inl JSONDecodeError"
      by (simp add: well_formed_line_def)
    then have "read_lines loads s (l # ls) = read_lines loads s ls"
      by (rule read_lines_skip)
    with Cons.IH[OF rest, of s] show ?thesis by simp
  next
    case (Inr r)
    with wf have "log_record r" by (simp add: well_formed_line_def)
    then obtain s1 where s1: "process_entry s r = Inr s1"
      using log_record_returns by blast
    from Inr have "read_lines loads s (l # ls) =
        and_then (process_entry s r) (\<lambda>s'. read_lines loads s' ls)"
      by (rule read_lines_decoded)
    with s1 Cons.IH[OF rest, of s1] show ?thesis by (simp add: and_then_def)
  qed
qed

section \<open>The accuracy of the success rate\<close>

lemma rhe_err: "\<bar>of_int (rhe x) - x\<bar> \<le> 1 / 2"
proof -
  have "of_int \<lfloor>x\<rfloor> \<le> x" "x < of_int \<lfloor>x\<rfloor> + 1" by linarith+
  then show ?thesis by (auto simp: rhe_def Let_def)
qed

lemma rhe_nonneg: "0 \<le> x \<Longrightarrow> 0 \<le> rhe x"
  by (auto simp: rhe_def Let_def)

lemma rhe_unique:
  assumes "of_int n - 1 / 2 < x" and "x < of_int n + 1 / 2"
  shows "rhe x = n"
proof -
  have "of_int (n - 1) \<le> x" using assms(1) by simp
  then have lo: "n - 1 \<le> \<lfloor>x\<rfloor>" by (simp only: le_floor_iff)
  have "x < of_int (n + 1)" using assms(2) by simp
  then have hi: "\<lfloor>x\<rfloor> < n + 1" by (simp only: floor_less_iff)
  from lo hi consider "\<lfloor>x\<rfloor> = n" | "\<lfloor>x\<rfloor> = n - 1" by linarith
  then show ?thesis
  proof cases
    case 1
    with assms show ?thesis by (simp add: rhe_def Let_def)
  next
    case 2
    with assms show ?thesis by (simp add: rhe_def Let_def)
  qed
qed

lemma pow2_pos: "0 < (2::rat) powi k"
  by (simp add: zero_less_power_int)

lemma quotient_of_pos:
  assumes "0 < q" and "quotient_of q = (a, b)"
  shows "0 < a" and "0 < b" and "q = of_int a / of_int b"
proof -
  from assms(2) show b: "0 < b" by (rule quotient_of_denom_pos)
  from assms(2) show q: "q = of_int a / of_int b" by (rule quotient_of_div)
  from assms(1) b q show "0 < a" by (simp add: zero_less_divide_iff)
qed

lemma bitlen_powi_bounds:
  assumes "0 < (a::int)"
  shows "2 powi (bitlen a - 1) \<le> (of_int a :: rat)" and "(of_int a :: rat) < 2 powi (bitlen a)"
proof -
  from assms have b1: "1 \<le> bitlen a" by (auto simp: bitlen_alt_def)
  from bitlen_bounds[OF assms] have lo: "2 ^ nat (bitlen a - 1) \<le> a" and hi: "a < 2 ^ nat (bitlen a)"
    by simp_all
  from lo have "(of_int (2 ^ nat (bitlen a - 1)) :: rat) \<le> of_int a" by (simp only: of_int_le_iff)
  then show "2 powi (bitlen a - 1) \<le> (of_int a :: rat)"
    using b1 by (simp add: power_int_def)
  from hi have "(of_int a :: rat) < of_int (2 ^ nat (bitlen a))" by (simp only: of_int_less_iff)
  then show "(of_int a :: rat) < 2 powi (bitlen a)"
    using b1 by (simp add: power_int_def)
qed

lemma ilog2_bounds:
  assumes "0 < q"
  shows "2 powi (ilog2 q) \<le> q" and "q < 2 powi (ilog2 q + 1)"
proof -
  obtain a b where ab: "quotient_of q = (a, b)" by (cases "quotient_of q")
  from quotient_of_pos[OF assms ab] have a: "0 < a" and b: "0 < b" and q: "q = of_int a / of_int b"
    by simp_all
  define k where "k = bitlen a - bitlen b"
  have e: "ilog2 q = (if 2 powi k \<le> q then k else k - 1)"
    by (simp add: ilog2_def ab k_def Let_def)
  note A = bitlen_powi_bounds[OF a] and B = bitlen_powi_bounds[OF b]
  have bpos: "0 < (of_int b :: rat)" using b by simp
  have lo: "2 powi (k - 1) \<le> q"
  proof -
    have "2 powi (k - 1) * of_int b \<le> (2::rat) powi (k - 1) * 2 powi (bitlen b)"
      using B(2) by (simp add: pow2_pos less_imp_le)
    also have "\<dots> = 2 powi (bitlen a - 1)"
      by (simp add: k_def power_int_add[symmetric])
    also have "\<dots> \<le> of_int a" by (rule A(1))
    finally show ?thesis using bpos by (simp add: q pos_le_divide_eq)
  qed
  have hi: "q < 2 powi (k + 1)"
  proof -
    have "of_int a < (2::rat) powi (bitlen a)" by (rule A(2))
    also have "\<dots> = 2 powi (k + 1) * 2 powi (bitlen b - 1)"
      by (simp add: k_def power_int_add[symmetric])
    also have "\<dots> \<le> 2 powi (k + 1) * of_int b"
      using B(1) by (simp add: pow2_pos)
    finally show ?thesis using bpos by (simp add: q pos_divide_less_eq)
  qed
  show "2 powi (ilog2 q) \<le> q" using lo by (simp add: e)
  show "q < 2 powi (ilog2 q + 1)" using hi by (auto simp: e)
qed

lemma pow2_mono: "a \<le> b \<Longrightarrow> (2::rat) powi a \<le> 2 powi b"
  by (rule power_int_increasing) simp_all

lemma pow2_less_imp:
  assumes "(2::rat) powi a < 2 powi b"
  shows "a < b"
proof (rule ccontr)
  assume "\<not> a < b"
  then have "(2::rat) powi b \<le> 2 powi a" by (intro pow2_mono) simp
  with assms show False by simp
qed

lemma ilog2_less: "0 < q \<Longrightarrow> q < 2 powi k \<Longrightarrow> ilog2 q < k"
  using ilog2_bounds(1)[of q] by (intro pow2_less_imp) linarith

lemma ilog2_unique:
  assumes "2 powi e \<le> q" and "q < 2 powi (e + 1)"
  shows "ilog2 q = e"
proof -
  have q: "0 < q" using assms(1) pow2_pos[of e] by linarith
  have "ilog2 q < e + 1" using q assms(2) by (rule ilog2_less)
  moreover have "e < ilog2 q + 1"
    using assms(1) ilog2_bounds(2)[OF q] by (intro pow2_less_imp) linarith
  ultimately show ?thesis by linarith
qed


lemma ulp_pos: "0 < ulp q"
  by (simp add: ulp_def pow2_pos)

lemma ulp_le:
  assumes "0 < q" and "q < 2 powi k" and "- 1022 \<le> k - 1"
  shows "ulp q \<le> 2 powi (k - 53)"
proof -
  from assms(1,2) have "ilog2 q < k" by (rule ilog2_less)
  with assms(3) have "max (ilog2 q) (- 1022) - 52 \<le> k - 53" by simp
  then have "(2::rat) powi (max (ilog2 q) (- 1022) - 52) \<le> 2 powi (k - 53)" by (rule pow2_mono)
  with assms(1) show ?thesis by (simp add: ulp_def)
qed

lemma nearest_err: "\<bar>nearest q - q\<bar> \<le> ulp q / 2"
proof -
  have "nearest q - q = (of_int (rhe (q / ulp q)) - q / ulp q) * ulp q"
    using ulp_pos[of q] by (simp add: nearest_def algebra_simps)
  then have "\<bar>nearest q - q\<bar> = \<bar>of_int (rhe (q / ulp q)) - q / ulp q\<bar> * ulp q"
    using ulp_pos[of q] by (simp add: abs_mult)
  also have "\<dots> \<le> (1 / 2) * ulp q"
    using rhe_err[of "q / ulp q"] ulp_pos[of q] by (intro mult_right_mono) simp_all
  finally show ?thesis by simp
qed

lemma nearest_nonneg: "0 \<le> q \<Longrightarrow> 0 \<le> nearest q"
  using ulp_pos[of q] by (simp add: nearest_def rhe_nonneg)

lemma nearest_zero: "nearest 0 = 0"
  by (simp add: nearest_def rhe_def)

lemma nearest_close:
  assumes "0 \<le> q" and "q < 2 powi k" and "- 1022 \<le> k - 1"
  shows "\<bar>nearest q - q\<bar> \<le> 2 powi (k - 53) / 2"
proof (cases "q = 0")
  case True
  then show ?thesis using pow2_pos[of "k - 53"] by (simp add: nearest_zero)
next
  case False
  with assms(1) have "0 < q" by simp
  from ulp_le[OF this assms(2,3)] nearest_err[of q] show ?thesis by simp
qed

lemma round_double_Finite:
  assumes "0 \<le> q" and "q < 2 powi k" and "- 1022 \<le> k - 1" and "k \<le> 1023"
  shows "round_double q = Finite (nearest q)"
proof -
  have "2 powi (k - 53) / 2 \<le> (2::rat) powi k"
    using pow2_mono[of "k - 53" k] pow2_pos[of "k - 53"] by linarith
  with nearest_close[OF assms(1-3)] assms(2) have "nearest q < 2 powi k + 2 powi k" by linarith
  also have "\<dots> = 2 powi (k + 1)" by (simp add: power_int_add)
  also have "\<dots> \<le> 2 powi 1024" using assms(4) by (intro pow2_mono) simp
  finally have "nearest q < 2 powi 1024" .
  moreover have "- (2 powi 1024) < nearest q"
    using nearest_nonneg[OF assms(1)] pow2_pos[of 1024] by linarith
  ultimately show ?thesis by (simp add: round_double_def Let_def)
qed

lemma py_truediv_close:
  assumes "0 < b" and "a \<le> b"
  shows "\<exists>r. py_truediv a b = Inr (Finite r) \<and> 0 \<le> r \<and>
             \<bar>r - of_nat a / of_nat b\<bar> \<le> 1 / 2 ^ 53"
proof -
  define q :: rat where "q = of_nat a / of_nat b"
  have q0: "0 \<le> q" by (simp add: q_def)
  have "q \<le> 1" using assms by (simp add: q_def)
  then have q1: "q < 2 powi 1" by simp
  have f: "round_double q = Finite (nearest q)"
    using q0 q1 by (rule round_double_Finite) simp_all
  have "\<bar>nearest q - q\<bar> \<le> 2 powi (1 - 53) / 2"
    using q0 q1 by (rule nearest_close) simp
  also have "\<dots> = 1 / 2 ^ 53" by (simp add: power_int_minus_divide)
  finally have "\<bar>nearest q - q\<bar> \<le> 1 / 2 ^ 53" .
  with f nearest_nonneg[OF q0] assms(1) show ?thesis
    by (simp add: py_truediv_def q_def)
qed

lemma times_100_close:
  assumes "0 \<le> r" and "r \<le> 1 + 1 / 2 ^ 53"
  shows "\<exists>y. times_100 (Finite r) = Finite y \<and> 0 \<le> y \<and> \<bar>y - r * 100\<bar> \<le> 1 / 2 ^ 47"
proof -
  have q0: "0 \<le> r * 100" using assms(1) by simp
  have "r * 100 < 128" using assms(2) by simp
  then have q1: "r * 100 < 2 powi 7" by simp
  have f: "round_double (r * 100) = Finite (nearest (r * 100))"
    using q0 q1 by (rule round_double_Finite) simp_all
  have "\<bar>nearest (r * 100) - r * 100\<bar> \<le> 2 powi (7 - 53) / 2"
    using q0 q1 by (rule nearest_close) simp
  also have "\<dots> = 1 / 2 ^ 47" by (simp add: power_int_minus_divide)
  finally have "\<bar>nearest (r * 100) - r * 100\<bar> \<le> 1 / 2 ^ 47" .
  with f nearest_nonneg[OF q0] show ?thesis by (simp add: times_100_def)
qed

lemma fmt_1f_close:
  assumes "0 \<le> y"
  shows "\<exists>n. fmt_1f (Finite y) = one_decimal n \<and> \<bar>of_nat n / 10 - y\<bar> \<le> 1 / 20"
proof -
  define n where "n = nat (rhe (y * 10))"
  have "0 \<le> rhe (y * 10)" using assms by (intro rhe_nonneg) simp
  then have "(of_nat n :: rat) = of_int (rhe (y * 10))" by (simp add: n_def)
  with rhe_err[of "y * 10"] have "\<bar>of_nat n / 10 - y\<bar> \<le> 1 / 20" by linarith
  moreover have "fmt_1f (Finite y) = one_decimal n"
    using assms by (simp add: fmt_1f_def n_def)
  ultimately show ?thesis by blast
qed

lemma three_errors:
  fixes d1 d2 d3 e1 e2 e3 :: rat
  assumes "\<bar>d1\<bar> \<le> e1" and "\<bar>d2\<bar> \<le> e2" and "\<bar>d3\<bar> \<le> e3"
  shows "\<bar>d3 + d2 + 100 * d1\<bar> \<le> e3 + e2 + 100 * e1"
  using assms by linarith

text \<open>
  For counters with \<open>ok \<le> tot\<close> the rate is a finite double, and the numeral printed
  for it is within a twentieth and the rounding error of the two operations of the exact
  percentage.
\<close>

lemma success_rate_close:
  assumes "0 < tot" and "ok \<le> tot"
  shows "\<exists>y n. success_rate ok tot = Inr (Finite y) \<and> fmt_1f (Finite y) = one_decimal n \<and>
             \<bar>of_nat n / 10 - of_nat ok / of_nat tot * 100\<bar> \<le> (1 / 20 + 41 / 2 ^ 51 :: rat)"
proof -
  define x :: rat where "x = of_nat ok / of_nat tot"
  from py_truediv_close[OF assms] obtain r where r: "py_truediv ok tot = Inr (Finite r)"
    and r0: "0 \<le> r" and re: "\<bar>r - x\<bar> \<le> 1 / 2 ^ 53" by (auto simp: x_def)
  have "x \<le> 1" using assms by (simp add: x_def)
  with re have "r \<le> 1 + 1 / 2 ^ 53" by linarith
  from times_100_close[OF r0 this] obtain y where y: "times_100 (Finite r) = Finite y"
    and y0: "0 \<le> y" and ye: "\<bar>y - r * 100\<bar> \<le> 1 / 2 ^ 47" by blast
  from fmt_1f_close[OF y0] obtain n where n: "fmt_1f (Finite y) = one_decimal n"
    and ne: "\<bar>of_nat n / 10 - y\<bar> \<le> 1 / 20" by blast
  have "of_nat n / 10 - x * 100 = (of_nat n / 10 - y) + (y - r * 100) + 100 * (r - x)"
    by (simp add: algebra_simps)
  also have "\<bar>\<dots>\<bar> \<le> 1 / 20 + 1 / 2 ^ 47 + 100 * (1 / 2 ^ 53)"
    using re ye ne by (rule three_errors)
  also have "1 / 20 + 1 / 2 ^ 47 + 100 * (1 / 2 ^ 53) = (1 / 20 + 41 / 2 ^ 51 :: rat)"
    by simp
  finally have "\<bar>of_nat n / 10 - x * 100\<bar> \<le> 1 / 20 + 41 / 2 ^ 51" .
  moreover have "success_rate ok tot = Inr (Finite y)"
    by (simp add: success_rate_def and_then_def r y)
  ultimately show ?thesis using n unfolding x_def by blast
qed

text \<open>
  Below \<open>2 ^ 41\<close> tasks the rounding error is too small to matter: the numeral is a
  nearest one to the exact percentage.
\<close>

lemma nearest_tenth:
  fixes n tot ok :: nat
  assumes "0 < tot" and "tot < 2 ^ 41"
    and "\<bar>of_nat n / 10 - of_nat ok / of_nat tot * 100\<bar> \<le> (1 / 20 + 41 / 2 ^ 51 :: rat)"
  shows "\<bar>of_nat n / 10 - of_nat ok / of_nat tot * 100\<bar> \<le> (1 / 20 :: rat)"
proof -
  define t :: rat where "t = of_nat tot"
  define D :: int where "D = int n * int tot - 1000 * int ok"
  have t0: "0 < t" using assms(1) by (simp add: t_def)
  have "tot < (2 ^ 41 :: nat)" using assms(2) .
  then have "(of_nat tot :: rat) < of_nat (2 ^ 41)" by (simp only: of_nat_less_iff)
  then have t1: "t < 2 ^ 41" by (simp add: t_def)
  have eq: "of_nat n / 10 - of_nat ok / of_nat tot * 100 = of_int D / (10 * t)"
    using t0 by (simp add: D_def t_def field_simps)
  have "\<bar>of_int D / (10 * t)\<bar> = \<bar>of_int D :: rat\<bar> / (10 * t)"
    using t0 by (simp add: abs_mult)
  with assms(3) have "\<bar>of_int D :: rat\<bar> / (10 * t) \<le> 1 / 20 + 41 / 2 ^ 51"
    by (simp only: eq)
  then have "\<bar>of_int D :: rat\<bar> \<le> (1 / 20 + 41 / 2 ^ 51) * (10 * t)"
    using t0 by (simp only: pos_divide_le_eq)
  also have "\<dots> = t / 2 + 410 / 2 ^ 51 * t" by (simp add: algebra_simps)
  also have "\<dots> < t / 2 + 1 / 2" using t1 by simp
  finally have "2 * \<bar>of_int D :: rat\<bar> < of_int (int tot) + 1" by (simp add: t_def)
  then have "(of_int (2 * \<bar>D\<bar>) :: rat) < of_int (int tot + 1)" by simp
  then have "2 * \<bar>D\<bar> < int tot + 1" by (simp only: of_int_less_iff)
  then have "2 * \<bar>D\<bar> \<le> int tot" by simp
  then have "(of_int (2 * \<bar>D\<bar>) :: rat) \<le> of_int (int tot)" by (simp only: of_int_le_iff)
  then have "\<bar>of_int D :: rat\<bar> \<le> t / 2" by (simp add: t_def)
  then have "\<bar>of_int D :: rat\<bar> / (10 * t) \<le> (t / 2) / (10 * t)"
    using t0 by (simp only: divide_right_mono)
  also have "\<dots> = 1 / 20" using t0 by simp
  finally have "\<bar>of_int D / (10 * t)\<bar> \<le> (1 / 20 :: rat)"
    using t0 by (simp add: abs_mult)
  then show ?thesis by (simp only: eq)
qed

text \<open>Evaluating the operations at given numbers.\<close>

lemma ulp_eval:
  assumes "2 powi e \<le> \<bar>q\<bar>" and "\<bar>q\<bar> < 2 powi (e + 1)"
  shows "ulp q = 2 powi (max e (- 1022) - 52)"
  using ilog2_unique[OF assms] by (simp add: ulp_def)

lemma nearest_eval:
  assumes "2 powi e \<le> \<bar>q\<bar>" and "\<bar>q\<bar> < 2 powi (e + 1)" and "- 1022 \<le> e"
    and "of_int n - 1 / 2 < q / 2 powi (e - 52)" and "q / 2 powi (e - 52) < of_int n + 1 / 2"
  shows "nearest q = of_int n * 2 powi (e - 52)"
proof -
  have u: "ulp q = 2 powi (e - 52)"
    using ulp_eval[OF assms(1,2)] assms(3) by simp
  have "rhe (q / 2 powi (e - 52)) = n" using assms(4,5) by (rule rhe_unique)
  then show ?thesis by (simp add: nearest_def u)
qed

lemma rhe_tie_even:
  assumes "x = of_int n + 1 / 2" and "even n"
  shows "rhe x = n"
proof -
  have "\<lfloor>x\<rfloor> = n" unfolding assms(1) by (rule floor_unique) simp_all
  with assms show ?thesis by (simp add: rhe_def Let_def)
qed

lemma finite_in_range:
  assumes "nearest q = r" and "- 128 < r" and "r < 128"
  shows "round_double q = Finite r"
proof -
  have "(2::rat) powi 7 \<le> 2 powi 1024" by (rule pow2_mono) simp
  then have "(128::rat) \<le> 2 powi 1024" by simp
  with assms show ?thesis by (simp add: round_double_def Let_def)
qed

lemma success_rate_eval:
  assumes "tot \<noteq> 0"
    and "nearest (of_nat ok / of_nat tot) = r" and "- 128 < r" and "r < 128"
    and "nearest (r * 100) = y" and "- 128 < y" and "y < 128"
  shows "success_rate ok tot = Inr (Finite y)"
proof -
  have "round_double (of_nat ok / of_nat tot) = Finite r"
    using assms(2-4) by (rule finite_in_range)
  moreover have "round_double (r * 100) = Finite y"
    using assms(5-7) by (rule finite_in_range)
  ultimately show ?thesis
    using assms(1) by (simp add: success_rate_def py_truediv_def times_100_def and_then_def)
qed

section \<open>\<open>print\<close>, \<open>parse_log\<close>, the report and \<open>main\<close>\<close>

lemma prints_all: "(\<And>l. l \<in> set ls \<Longrightarrow> sout l = None) \<Longrightarrow> prints sout ls = (ls, None)"
  by (induction ls) simp_all

lemma prints_None:
  "prints sout ls = (printed, None) \<Longrightarrow> printed = ls"
proof (induction ls arbitrary: printed)
  case Nil
  then show ?case by simp
next
  case (Cons l ls)
  then show ?case
    by (cases "sout l"; cases "prints sout ls") auto
qed

lemma prints_append:
  "prints sout (xs @ ys) =
     (case prints sout xs of
        (printed, Some e) \<Rightarrow> (printed, Some e)
      | (printed, None) \<Rightarrow> (case prints sout ys of (printed2, r) \<Rightarrow> (printed @ printed2, r)))"
proof (induction xs)
  case Nil
  show ?case by (cases "prints sout ys") simp
next
  case (Cons l xs)
  show ?case
  proof (cases "sout l")
    case None
    obtain p1 r1 where p1: "prints sout xs = (p1, r1)" by (cases "prints sout xs")
    obtain p2 r2 where p2: "prints sout ys = (p2, r2)" by (cases "prints sout ys")
    from Cons.IH None p1 p2 show ?thesis by (cases r1) simp_all
  next
    case (Some e)
    then show ?thesis by simp
  qed
qed

lemma prints_single:
  "prints sout [l] = (case sout l of None \<Rightarrow> ([l], None) | Some e \<Rightarrow> ([], Some e))"
  by (simp split: option.splits)

lemma report_error_single:
  "report_error sout l =
     (case sout l of None \<Rightarrow> ([l], Inr None) | Some e \<Rightarrow> ([], Inl e))"
  by (simp add: report_error_def split: option.splits)

lemma report_error_not_parsed: "snd (report_error sout l) \<noteq> Inr (Some s)"
  by (simp add: report_error_single split: option.splits)

lemma parse_log_Content:
  "fs p = Content ls fault \<Longrightarrow>
     parse_log loads fs sout p s =
       (case and_then (read_lines loads s ls) (\<lambda>s'. case fault of None \<Rightarrow> Inr s' | Some e \<Rightarrow> Inl e) of
          Inl e \<Rightarrow> report_error sout [Lit ''Error reading log file: '', Exc e]
        | Inr s' \<Rightarrow> ([], Inr (Some s')))"
  by (simp add: parse_log_def)

lemma parse_log_fault:
  "fs p = Content ls (Some e) \<Longrightarrow> snd (parse_log loads fs sout p s) \<noteq> Inr (Some s')"
  by (cases "read_lines loads s ls")
    (simp_all add: parse_log_Content and_then_def report_error_not_parsed)

lemma parse_log_unread:
  assumes "fs p = Missing \<or> fs p = Unopenable e \<or> fs p = Content ls (Some e)"
  shows "snd (parse_log loads fs sout p s) \<noteq> Inr (Some s')"
  using assms
  by (auto simp: parse_log_fault) (simp_all add: parse_log_def report_error_not_parsed)

lemma main_not_parsed:
  assumes "\<And>s. snd (parse_log loads fs sout (log_file_arg argv) empty_stats) \<noteq> Inr (Some s)"
  shows "snd (main loads fs sout argv) = 1"
proof (cases "parse_log loads fs sout (log_file_arg argv) empty_stats")
  case (Pair printed r)
  with assms show ?thesis
    by (cases r) (auto simp: main_def split: option.splits)
qed

lemma main_parsed_returns:
  assumes "parse_log loads fs sout (log_file_arg argv) empty_stats = (printed, Inr (Some s))"
    and "generate_report sout (log_file_arg argv) s = (rep, Inr b)"
  shows "main loads fs sout argv = (printed @ rep, if b then 0 else 1)"
  using assms by (simp add: main_def)

lemma main_parsed_raises:
  assumes "parse_log loads fs sout (log_file_arg argv) empty_stats = (printed, Inr (Some s))"
    and "generate_report sout (log_file_arg argv) s = (rep, Inl e)"
  shows "main loads fs sout argv = (printed @ rep, 1)"
  using assms by (simp add: main_def)

lemma main_same_parse:
  assumes "parse_log loads fs1 sout (log_file_arg argv) empty_stats =
           parse_log loads fs2 sout (log_file_arg argv) empty_stats"
  shows "main loads fs1 sout argv = main loads fs2 sout argv"
  using assms by (simp add: main_def)

lemma run_insert_skipped:
  assumes "loads (strip g) = Inl JSONDecodeError"
    and "fs1 p = Content (xs @ g # ys) fault"
    and "fs2 p = Content (xs @ ys) fault"
  shows "parse_log loads fs1 sout p s = parse_log loads fs2 sout p s"
  using assms by (simp add: parse_log_Content read_lines_insert_skipped)

text \<open>What a report that returns has printed.\<close>

lemma generate_report_returns:
  assumes "generate_report sout p s = (printed, Inr b)"
  shows "b = (failed_tasks s = 0)"
    and "total_tasks s = 0 \<Longrightarrow>
           printed = report_header p @ report_statistics s @ report_failed s"
    and "0 < total_tasks s \<Longrightarrow>
           \<exists>y. success_rate (ok_tasks s) (total_tasks s) = Inr y \<and>
               printed = report_header p @ report_statistics s @ report_failed s @
                           [rate_line_of y]"
proof -
  obtain pr r where pr: "prints sout (report_header p @ report_statistics s @ report_failed s)
      = (pr, r)" by (cases "prints sout (report_header p @ report_statistics s @ report_failed s)")
  with assms have r: "r = None" by (cases r) (simp_all add: generate_report_def)
  with pr have pr_eq: "pr = report_header p @ report_statistics s @ report_failed s"
    by (simp add: prints_None)
  show "b = (failed_tasks s = 0)"
    using assms pr r
    by (auto simp: generate_report_def prints_single split: if_splits sum.splits option.splits)
  show "printed = report_header p @ report_statistics s @ report_failed s"
    if "total_tasks s = 0"
    using assms pr r that pr_eq by (simp add: generate_report_def)
  show "\<exists>y. success_rate (ok_tasks s) (total_tasks s) = Inr y \<and>
            printed = report_header p @ report_statistics s @ report_failed s @ [rate_line_of y]"
    if "0 < total_tasks s"
    using assms pr r that pr_eq
    by (auto simp: generate_report_def prints_single split: sum.splits option.splits)
qed

text \<open>On a standard output that writes every line, the report of a run returns.\<close>

lemma generate_report_total:
  assumes "\<And>l. sout l = None" and "ok_tasks s \<le> total_tasks s"
  shows "\<exists>rep. generate_report sout p s = (rep, Inr (failed_tasks s = 0))"
proof (cases "0 < total_tasks s")
  case True
  from success_rate_close[OF True assms(2)] obtain y where
    "success_rate (ok_tasks s) (total_tasks s) = Inr (Finite y)" by blast
  with True show ?thesis
    by (simp add: generate_report_def prints_all assms(1) prints_single)
next
  case False
  then show ?thesis
    by (simp add: generate_report_def prints_all assms(1))
qed

lemma rule_not_rate_line: "n \<noteq> 14 \<Longrightarrow> \<not> rate_line [Lit (replicate n c)]"
  by (auto simp: rate_line_def dest: arg_cong[where f = length])

lemma no_rate_line_header: "filter rate_line (report_header p) = []"
  by (simp add: report_header_def rule_not_rate_line) (simp add: rate_line_def)

lemma no_rate_line_statistics: "filter rate_line (report_statistics s) = []"
  by (simp add: report_statistics_def rule_not_rate_line) (simp add: rate_line_def)

lemma no_rate_line_failures:
  "filter rate_line (concat (map report_failure fs)) = []"
  by (induction fs) (simp_all add: report_failure_def rate_line_def)

lemma no_rate_line_failed: "filter rate_line (report_failed s) = []"
  by (simp add: report_failed_def no_rate_line_failures rule_not_rate_line)
    (simp add: rate_line_def)

lemma rate_line_rate_line_of: "rate_line (rate_line_of y)"
  by (simp add: rate_line_def rate_line_of_def)

lemma dropWhile_all: "list_all P xs \<Longrightarrow> dropWhile P (xs @ ys) = dropWhile P ys"
  by (induction xs) simp_all

lemma strip_padded:
  assumes "list_all isspace a" and "list_all isspace b"
  shows "strip (a @ body @ b) = strip body"
proof -
  have l: "dropWhile isspace (a @ body @ b) = dropWhile isspace (body @ b)"
    using assms(1) by (rule dropWhile_all)
  have rb: "list_all isspace (rev b)" using assms(2) by (simp add: list_all_iff)
  show ?thesis
  proof (cases "list_all isspace body")
    case True
    then have "list_all isspace (body @ b)" using assms(2) by simp
    then have d1: "dropWhile isspace (body @ b) = []"
      by (simp add: list_all_iff)
    from True have d2: "dropWhile isspace body = []"
      by (simp add: list_all_iff)
    show ?thesis unfolding strip_def l d1 d2 by simp
  next
    case False
    then obtain x where "x \<in> set body" and "\<not> isspace x"
      by (auto simp: list_all_iff)
    then have d: "dropWhile isspace (body @ b) = dropWhile isspace body @ b"
      by (rule dropWhile_append1)
    show ?thesis
      unfolding strip_def l d by (simp add: dropWhile_all[OF rb])
  qed
qed


section \<open>The scenario, evaluated\<close>

lemma strip_ok_line: "strip (ok_text @ [10]) = ok_text"
  by (simp add: strip_def ok_text_def ustr_def isspace_def)

lemma strip_failed_line: "strip (failed_text @ [10]) = failed_text"
  by (simp add: strip_def failed_text_def ustr_def isspace_def)

lemma strip_not_json: "strip (ustr ''not json'' @ [10]) = ustr ''not json''"
  by (simp add: strip_def ustr_def isspace_def)

lemma loads_ok: "scenario_loads ok_text = Inr ok_record"
  by (simp add: scenario_loads_def)

lemma loads_failed: "scenario_loads failed_text = Inr failed_record"
  by (simp add: scenario_loads_def ok_text_def failed_text_def ustr_eq)

lemma length_ustr: "length (ustr t) = length t"
  by (simp add: ustr_def)

lemma short_not_deep: "length t < 100000 \<Longrightarrow> t \<noteq> deep_text"
  by (auto simp: deep_text_def)

lemma deep_not_short: "length t < 100000 \<Longrightarrow> deep_text \<noteq> t"
  by (auto simp: deep_text_def)

lemma loads_not_json: "scenario_loads (ustr ''not json'') = Inl JSONDecodeError"
  by (simp add: scenario_loads_def ok_text_def failed_text_def skipped_text_def ustr_eq
      short_not_deep length_ustr)


lemma loads_deep: "scenario_loads deep_text = Inl RecursionError"
  by (simp add: scenario_loads_def ok_text_def failed_text_def skipped_text_def
      deep_not_short length_ustr)

lemma strip_unpadded:
  assumes "body \<noteq> []" and "\<not> isspace (hd body)" and "\<not> isspace (last body)"
  shows "strip body = body"
proof -
  from assms(1,2) have d: "dropWhile isspace body = body" by (cases body) simp_all
  from assms(1,3) have "dropWhile isspace (rev body) = rev body"
    by (cases "rev body") (simp_all add: hd_rev[symmetric])
  then show ?thesis unfolding strip_def d by simp
qed

lemma strip_deep_line: "strip (deep_text @ [10]) = deep_text"
proof -
  have "strip ([] @ deep_text @ [10]) = strip deep_text"
    by (rule strip_padded) (simp_all add: isspace_def)
  moreover have "strip deep_text = deep_text"
    by (rule strip_unpadded) (simp_all add: deep_text_def isspace_def)
  ultimately show ?thesis by simp
qed

lemma process_ok_record:
  "process_entry s ok_record =
     Inr (s\<lparr>hosts := insert (HStr (ustr ''10.0.0.1'')) (hosts s), total_tasks := total_tasks s + 1,
            ok_tasks := ok_tasks s + 1, changed_tasks := changed_tasks s + 1\<rparr>)"
  by (simp add: process_entry_def ok_record_def track_hosts_def on_ok_def and_then_def ustr_eq)

lemma process_failed_record:
  "process_entry s failed_record =
     Inr (s\<lparr>hosts := insert (HStr (ustr ''10.0.0.2'')) (hosts s), total_tasks := total_tasks s + 1,
            failed_tasks := failed_tasks s + 1,
            failed_details := failed_details s @
              [\<lparr>task = JStr (ustr ''install pkg''), host = JStr (ustr ''10.0.0.2''),
                error = JStr (ustr ''timeout'')\<rparr>]\<rparr>)"
  by (simp add: process_entry_def failed_record_def track_hosts_def on_failed_def and_then_def ustr_eq)

lemma process_skipped_record:
  "process_entry s skipped_record =
     Inr (s\<lparr>hosts := insert (HStr (ustr ''10.0.0.1'')) (hosts s),
            skipped_tasks := skipped_tasks s + 1\<rparr>)"
  by (simp add: process_entry_def skipped_record_def track_hosts_def on_skipped_def and_then_def ustr_eq)

lemma scenario_run: "read_lines scenario_loads empty_stats scenario_lines = Inr scenario_stats"
  by (simp add: scenario_lines_def strip_ok_line strip_failed_line strip_not_json
      loads_ok loads_failed loads_not_json and_then_def process_ok_record process_failed_record
      empty_stats_def scenario_stats_def insert_commute)

lemma scenario_decoded: "decoded scenario_loads scenario_lines = [ok_record, failed_record]"
  by (simp add: decoded_def scenario_lines_def strip_ok_line strip_failed_line strip_not_json
      loads_ok loads_failed loads_not_json)

lemma is_event_ok_record:
  "is_event name ok_record = (name = ''runner_on_ok'')"
  by (auto simp: is_event_def event_data_of_def event_of_def ok_record_def ustr_eq)

lemma is_event_failed_record:
  "is_event name failed_record = (name = ''runner_on_failed'')"
  by (auto simp: is_event_def event_data_of_def event_of_def failed_record_def ustr_eq)

lemma is_event_skipped_record:
  "is_event name skipped_record = (name = ''runner_on_skipped'')"
  by (auto simp: is_event_def event_data_of_def event_of_def skipped_record_def ustr_eq)

lemma scenario_path: "log_file_arg scenario_argv = ustr ''run.log''"
  by (simp add: log_file_arg_def scenario_argv_def)

lemma default_path: "log_file_arg [p] = ustr ''/var/log/ansible/ansible.log''"
  by (simp add: log_file_arg_def)

lemma single_file_same: "single_file p ls p = Content ls None"
  by (simp add: single_file_def)

lemma process_bare_failed_record:
  "process_entry s bare_failed_record =
     Inr (s\<lparr>total_tasks := total_tasks s + 1, failed_tasks := failed_tasks s + 1,
            failed_details := failed_details s @
              [\<lparr>task = JStr (ustr ''Unknown''), host = JStr (ustr ''Unknown''),
                error = JStr (ustr ''No error message'')\<rparr>]\<rparr>)"
  by (simp add: process_entry_def bare_failed_record_def track_hosts_def on_failed_def
      and_then_def ustr_eq)

lemma is_event_bare_failed_record:
  "is_event name bare_failed_record = (name = ''runner_on_failed'')"
  by (auto simp: is_event_def event_data_of_def event_of_def bare_failed_record_def ustr_eq)

lemma host_keys_ok_record: "host_keys ok_record = [HStr (ustr ''10.0.0.1'')]"
  by (simp add: host_keys_def field_of_def event_data_of_def ok_record_def ustr_eq)

lemma host_keys_failed_record: "host_keys failed_record = [HStr (ustr ''10.0.0.2'')]"
  by (simp add: host_keys_def field_of_def event_data_of_def failed_record_def ustr_eq)

lemma changed_of_skipped_record: "changed_of skipped_record"
  by (simp add: changed_of_def field_of_def event_data_of_def skipped_record_def ustr_eq)

lemma log_record_ok_record: "log_record ok_record"
  by (simp add: log_record_def ok_record_def ustr_eq hashable_def)

lemma empty_stats_fields:
  "total_tasks empty_stats = 0" "changed_tasks empty_stats = 0" "failed_tasks empty_stats = 0"
  "skipped_tasks empty_stats = 0" "ok_tasks empty_stats = 0" "hosts empty_stats = {}"
  "failed_details empty_stats = []"
  by (simp_all add: empty_stats_def)

lemma loads_five: "scenario_loads (strip (ustr ''5'' @ [10])) = Inr (JInt 5)"
  by (simp add: strip_def isspace_def scenario_loads_def ok_text_def failed_text_def
      skipped_text_def ustr_def)

lemma log_record_failed_record: "log_record failed_record"
  by (simp add: log_record_def failed_record_def ustr_eq hashable_def)

lemma scenario_well_formed: "list_all (well_formed_line scenario_loads) scenario_lines"
  by (simp add: scenario_lines_def well_formed_line_def strip_ok_line strip_failed_line
      strip_not_json loads_ok loads_failed loads_not_json log_record_ok_record
      log_record_failed_record)

lemma parse_log_single_file:
  "parse_log loads (single_file p ls) sout p s =
     (case read_lines loads s ls of
        Inl e \<Rightarrow> report_error sout [Lit ''Error reading log file: '', Exc e]
      | Inr s' \<Rightarrow> ([], Inr (Some s')))"
  by (cases "read_lines loads s ls")
    (simp_all add: parse_log_def single_file_def and_then_def)

lemma utf8_strict_plain: "list_all encodable l \<Longrightarrow> utf8_strict l = None"
  by (simp add: utf8_strict_def)

lemma plain_text:
  "\<not> list_ex surrogate (ustr ''run.log'')"
  "\<not> list_ex surrogate (ustr ''/var/log/ansible/ansible.log'')"
  "\<not> list_ex surrogate (ustr ''install pkg'')"
  "\<not> list_ex surrogate (ustr ''10.0.0.2'')"
  "\<not> list_ex surrogate (ustr ''timeout'')"
  "\<not> list_ex surrogate (ustr ''Unknown'')"
  "\<not> list_ex surrogate (ustr ''No error message'')"
  by (simp_all add: ustr_def surrogate_def)

lemma surrogate_text:
  "list_ex surrogate surrogate_path" "list_ex surrogate [56575]"
  by (simp_all add: surrogate_path_def surrogate_def)

lemma process_surrogate_record:
  "process_entry empty_stats surrogate_record = Inr surrogate_stats"
  by (simp add: process_entry_def surrogate_record_def track_hosts_def on_failed_def
      and_then_def ustr_eq empty_stats_def surrogate_stats_def)

text \<open>One task of two succeeded: the rate is \<open>50.0\<close>.\<close>

lemma success_rate_1_2: "success_rate 1 2 = Inr (Finite 50)"
proof (rule success_rate_eval)
  have "nearest (1 / 2) = of_int (2 ^ 52) * 2 powi (- 1 - 52)"
    by (rule nearest_eval) simp_all
  then show "nearest (of_nat 1 / of_nat 2) = 1 / 2" by simp
  have "nearest 50 = of_int (25 * 2 ^ 48) * 2 powi (5 - 52)"
    by (rule nearest_eval) simp_all
  then show "nearest (1 / 2 * 100) = 50" by simp
qed simp_all

lemma fmt_50: "fmt_1f (Finite 50) = ''50.0''"
proof -
  have "rhe (50 * 10) = 500" by (rule rhe_unique) simp_all
  then show ?thesis by (simp add: fmt_1f_def one_decimal_def)
qed

text \<open>
  Three more rates, as Python prints them: \<open>33.3\<close> for 1 of 3; \<open>6.2\<close> for 1 of 16,
  where the double is exactly 6.25 and the tie goes to the even digit; and \<open>0.1\<close> for
  1 of 2000, where the double is a little above 0.05.
\<close>

lemma success_rate_1_3:
  "success_rate 1 3 = Inr (Finite (2345624805922133 / 70368744177664))"
proof (rule success_rate_eval)
  have "nearest (1 / 3) = of_int 6004799503160661 * 2 powi (- 2 - 52)"
    by (rule nearest_eval) simp_all
  then show "nearest (of_nat 1 / of_nat 3) = 6004799503160661 / 18014398509481984" by simp
  have "nearest (6004799503160661 / 18014398509481984 * 100) =
      of_int 4691249611844266 * 2 powi (5 - 52)"
    by (rule nearest_eval) simp_all
  then show "nearest (6004799503160661 / 18014398509481984 * 100) =
      2345624805922133 / 70368744177664" by simp
qed simp_all

lemma fmt_1_3: "fmt_1f (Finite (2345624805922133 / 70368744177664)) = ''33.3''"
proof -
  have "rhe (2345624805922133 / 70368744177664 * 10) = 333" by (rule rhe_unique) simp_all
  then show ?thesis by (simp add: fmt_1f_def one_decimal_def)
qed

lemma success_rate_1_16: "success_rate 1 16 = Inr (Finite (25 / 4))"
proof (rule success_rate_eval)
  have "nearest (1 / 16) = of_int (2 ^ 52) * 2 powi (- 4 - 52)"
    by (rule nearest_eval) simp_all
  then show "nearest (of_nat 1 / of_nat 16) = 1 / 16" by simp
  have "nearest (25 / 4) = of_int (25 * 2 ^ 48) * 2 powi (2 - 52)"
    by (rule nearest_eval) simp_all
  then show "nearest (1 / 16 * 100) = 25 / 4" by simp
qed simp_all

lemma fmt_1_16: "fmt_1f (Finite (25 / 4)) = ''6.2''"
proof -
  have "rhe (25 / 4 * 10) = 62" by (rule rhe_tie_even) simp_all
  then show ?thesis by (simp add: fmt_1f_def one_decimal_def)
qed

lemma success_rate_1_2000:
  "success_rate 1 2000 = Inr (Finite (3602879701896397 / 72057594037927936))"
proof (rule success_rate_eval)
  have "nearest (1 / 2000) = of_int 4611686018427388 * 2 powi (- 11 - 52)"
    by (rule nearest_eval) simp_all
  then show "nearest (of_nat 1 / of_nat 2000) = 1152921504606847 / 2305843009213693952"
    by simp
  have "nearest (1152921504606847 / 2305843009213693952 * 100) =
      of_int 7205759403792794 * 2 powi (- 5 - 52)"
    by (rule nearest_eval) simp_all
  then show "nearest (1152921504606847 / 2305843009213693952 * 100) =
      3602879701896397 / 72057594037927936" by simp
qed simp_all

lemma fmt_1_2000: "fmt_1f (Finite (3602879701896397 / 72057594037927936)) = ''0.1''"
proof -
  have "rhe (3602879701896397 / 72057594037927936 * 10) = 1" by (rule rhe_unique) simp_all
  then show ?thesis by (simp add: fmt_1f_def one_decimal_def)
qed

text \<open>The report of the empty state, and of the scenario, on a strict UTF-8 output.\<close>

lemma prints_header: "prints utf8_strict (report_header (ustr ''run.log'')) =
    (report_header (ustr ''run.log''), None)"
  by (rule prints_all) (auto simp: report_header_def utf8_strict_def plain_text)

lemma prints_statistics: "prints utf8_strict (report_statistics s) = (report_statistics s, None)"
  by (rule prints_all) (auto simp: report_statistics_def utf8_strict_def)

lemma report_empty_stats:
  "generate_report utf8_strict (ustr ''run.log'') empty_stats =
     (report_header (ustr ''run.log'') @ report_statistics empty_stats, Inr True)"
  by (simp add: generate_report_def prints_append prints_header prints_statistics
      report_failed_def empty_stats_fields)

lemma scenario_stats_fields:
  "total_tasks scenario_stats = 2" "ok_tasks scenario_stats = 1"
  "failed_tasks scenario_stats = 1"
  by (simp_all add: scenario_stats_def)

lemma prints_scenario_failed:
  "prints utf8_strict (report_failed scenario_stats) = (report_failed scenario_stats, None)"
  by (rule prints_all)
    (auto simp: report_failed_def report_failure_def scenario_stats_def utf8_strict_def
       plain_text)

lemma scenario_rate:
  "success_rate (ok_tasks scenario_stats) (total_tasks scenario_stats) = Inr (Finite 50)"
  unfolding scenario_stats_fields by (rule success_rate_1_2)

lemma scenario_has_tasks: "0 < total_tasks scenario_stats"
  by (simp add: scenario_stats_def)

lemma report_scenario_stats:
  "generate_report utf8_strict (ustr ''run.log'') scenario_stats =
     (report_header (ustr ''run.log'') @ report_statistics scenario_stats @
      report_failed scenario_stats @ [[Lit ''Success rate: '', Lit ''50.0'', Lit ''%'']],
      Inr False)"
  by (simp add: generate_report_def prints_append prints_header prints_statistics
      prints_scenario_failed scenario_rate scenario_has_tasks scenario_stats_fields(3) fmt_50
      rate_line_of_def utf8_strict_def)

lemma prints_surrogate_failed:
  "prints utf8_strict (report_failed surrogate_stats) =
     ([[Lit ''FAILED TASKS DETAILS:''], [Lit (replicate 30 CHR ''-'')]],
      Some UnicodeEncodeError)"
  by (simp add: report_failed_def report_failure_def surrogate_stats_def utf8_strict_def
      surrogate_text plain_text surrogate_def)

lemma report_surrogate_stats:
  "generate_report utf8_strict (ustr ''run.log'') surrogate_stats =
     (report_header (ustr ''run.log'') @ report_statistics surrogate_stats @
      [[Lit ''FAILED TASKS DETAILS:''], [Lit (replicate 30 CHR ''-'')]],
      Inl UnicodeEncodeError)"
  by (simp add: generate_report_def prints_append prints_header prints_statistics
      prints_surrogate_failed)

lemma report_surrogate_path:
  "generate_report utf8_strict surrogate_path empty_stats =
     (take 3 (report_header surrogate_path), Inl UnicodeEncodeError)"
  by (simp add: generate_report_def report_header_def utf8_strict_def surrogate_text)

lemma surrogate_argv:
  "log_file_arg [ustr ''log-analyzer.py'', surrogate_path] = surrogate_path"
  by (simp add: log_file_arg_def)

section \<open>The claims\<close>

text \<open>
  Claim C1. On a well-formed log (every line fails to decode or decodes to a record of
  the data model) the read loop returns a state. Whenever it has consumed the lines
  \<open>ls\<close> from the empty state and returns the state \<open>s\<close>,
  \<open>total_tasks = ok_tasks + failed_tasks\<close> holds in \<open>s\<close>, and it held after every
  record on the way (after every prefix of the lines); \<open>ok_tasks\<close> is the
  number of decoded records that carry \<open>event_data\<close> and have the event \<open>runner_on_ok\<close>,
  \<open>failed_tasks\<close> the number of those with \<open>runner_on_failed\<close>, and \<open>total_tasks\<close> the
  sum of the two. A step on a \<open>runner_on_skipped\<close> record leaves \<open>total_tasks\<close> as it was.
\<close>

theorem total_is_ok_plus_failed:
  "(list_all (well_formed_line loads) ls \<longrightarrow> (\<exists>s. read_lines loads empty_stats ls = Inr s)) \<and>
   (read_lines loads empty_stats ls = Inr s \<longrightarrow>
      total_tasks s = ok_tasks s + failed_tasks s \<and>
      ok_tasks s = length (filter (is_event ''runner_on_ok'') (decoded loads ls)) \<and>
      failed_tasks s = length (filter (is_event ''runner_on_failed'') (decoded loads ls)) \<and>
      total_tasks s = length (filter (is_event ''runner_on_ok'') (decoded loads ls))
                    + length (filter (is_event ''runner_on_failed'') (decoded loads ls)) \<and>
      (\<forall>n. \<exists>s1. read_lines loads empty_stats (take n ls) = Inr s1 \<and>
                 total_tasks s1 = ok_tasks s1 + failed_tasks s1)) \<and>
   (process_entry s0 r = Inr s1 \<and> is_event ''runner_on_skipped'' r \<longrightarrow>
      total_tasks s1 = total_tasks s0)"
proof (intro conjI impI allI)
  assume "list_all (well_formed_line loads) ls"
  then show "\<exists>s. read_lines loads empty_stats ls = Inr s" by (rule read_lines_total)
next
  assume run: "read_lines loads empty_stats ls = Inr s"
  then have s: "s = foldl effect empty_stats (decoded loads ls)"
    by (rule read_lines_effect)
  show "total_tasks s = ok_tasks s + failed_tasks s"
    unfolding s by (rule invariant_foldl_empty)
  show "ok_tasks s = length (filter (is_event ''runner_on_ok'') (decoded loads ls))"
    unfolding s by (simp add: ok_tasks_foldl empty_stats_def)
  show "failed_tasks s = length (filter (is_event ''runner_on_failed'') (decoded loads ls))"
    unfolding s by (simp add: failed_tasks_foldl empty_stats_def)
  show "total_tasks s = length (filter (is_event ''runner_on_ok'') (decoded loads ls))
                    + length (filter (is_event ''runner_on_failed'') (decoded loads ls))"
    unfolding s by (simp add: total_tasks_foldl empty_stats_def)
  fix n
  from read_lines_take[OF run] obtain s1 where
    s1: "read_lines loads empty_stats (take n ls) = Inr s1" by blast
  from read_lines_effect[OF s1] have "total_tasks s1 = ok_tasks s1 + failed_tasks s1"
    by (simp add: invariant_foldl_empty)
  with s1 show "\<exists>s1. read_lines loads empty_stats (take n ls) = Inr s1 \<and>
                 total_tasks s1 = ok_tasks s1 + failed_tasks s1" by blast
next
  assume a: "process_entry s0 r = Inr s1 \<and> is_event ''runner_on_skipped'' r"
  then have "s1 = effect s0 r" by (simp add: process_entry_effect)
  moreover from a have "\<not> is_event ''runner_on_ok'' r" "\<not> is_event ''runner_on_failed'' r"
    by (auto dest: is_event_excl)
  ultimately show "total_tasks s1 = total_tasks s0"
    by (simp add: total_tasks_effect)
qed

theorem total_is_ok_plus_failed_witness:
  "list_all (well_formed_line scenario_loads) scenario_lines \<and>
   read_lines scenario_loads empty_stats scenario_lines = Inr scenario_stats \<and>
   total_tasks scenario_stats = ok_tasks scenario_stats + failed_tasks scenario_stats \<and>
   ok_tasks scenario_stats = 1 \<and> failed_tasks scenario_stats = 1 \<and>
   total_tasks scenario_stats = 1 + 1 \<and>
   process_entry scenario_stats skipped_record =
     Inr (scenario_stats\<lparr>skipped_tasks := 1\<rparr>) \<and>
   is_event ''runner_on_skipped'' skipped_record \<and>
   total_tasks (scenario_stats\<lparr>skipped_tasks := 1\<rparr>) = total_tasks scenario_stats"
  using total_is_ok_plus_failed[of scenario_loads scenario_lines scenario_stats
      scenario_stats skipped_record "scenario_stats\<lparr>skipped_tasks := 1\<rparr>"]
  by (simp add: scenario_well_formed scenario_run scenario_decoded is_event_ok_record
      is_event_failed_record is_event_skipped_record process_skipped_record scenario_stats_def
      insert_commute)

text \<open>
  Claim C2, as amended. Let \<open>parse_log\<close> return \<open>True\<close> with the state \<open>s\<close>. Whenever
  \<open>generate_report\<close> returns, its value is true exactly when \<open>failed_tasks\<close> is 0,
  whatever \<open>total_tasks\<close> is, and the exit status of \<open>main\<close> is 0 when it is true and 1
  when it is not; when an exception leaves \<open>generate_report\<close>, the exit status is 1.
  When the log is missing, cannot be opened, or fails while it is read, the exit status
  is 1. On a standard output that writes every line, the report of a state with
  \<open>ok_tasks \<le> total_tasks\<close> does return.
\<close>

theorem exit_status_follows_report:
  "(parse_log loads fs sout (log_file_arg argv) empty_stats = (printed, Inr (Some s)) \<and>
    generate_report sout (log_file_arg argv) s = (rep, Inr b) \<longrightarrow>
      b = (failed_tasks s = 0) \<and>
      main loads fs sout argv = (printed @ rep, if failed_tasks s = 0 then 0 else 1)) \<and>
   (parse_log loads fs sout (log_file_arg argv) empty_stats = (printed, Inr (Some s)) \<and>
    generate_report sout (log_file_arg argv) s = (rep', Inl e') \<longrightarrow>
      main loads fs sout argv = (printed @ rep', 1)) \<and>
   (fs2 (log_file_arg argv2) = Missing \<or> fs2 (log_file_arg argv2) = Unopenable e \<or>
    fs2 (log_file_arg argv2) = Content ls2 (Some e) \<longrightarrow>
      snd (main loads2 fs2 sout2 argv2) = 1) \<and>
   ((\<forall>l. sout3 l = None) \<and> ok_tasks s3 \<le> total_tasks s3 \<longrightarrow>
      (\<exists>rep3. generate_report sout3 p3 s3 = (rep3, Inr (failed_tasks s3 = 0))))"
proof (intro conjI impI)
  assume a: "parse_log loads fs sout (log_file_arg argv) empty_stats = (printed, Inr (Some s)) \<and>
    generate_report sout (log_file_arg argv) s = (rep, Inr b)"
  then have g: "generate_report sout (log_file_arg argv) s = (rep, Inr b)" by simp
  then show b: "b = (failed_tasks s = 0)" by (rule generate_report_returns(1))
  from a have "main loads fs sout argv = (printed @ rep, if b then 0 else 1)"
    by (simp add: main_parsed_returns)
  with b show "main loads fs sout argv = (printed @ rep, if failed_tasks s = 0 then 0 else 1)"
    by simp
next
  assume "parse_log loads fs sout (log_file_arg argv) empty_stats = (printed, Inr (Some s)) \<and>
    generate_report sout (log_file_arg argv) s = (rep', Inl e')"
  then show "main loads fs sout argv = (printed @ rep', 1)"
    by (simp add: main_parsed_raises)
next
  assume "fs2 (log_file_arg argv2) = Missing \<or> fs2 (log_file_arg argv2) = Unopenable e \<or>
    fs2 (log_file_arg argv2) = Content ls2 (Some e)"
  then have "snd (parse_log loads2 fs2 sout2 (log_file_arg argv2) empty_stats) \<noteq> Inr (Some s')"
    for s' by (rule parse_log_unread)
  then show "snd (main loads2 fs2 sout2 argv2) = 1" by (rule main_not_parsed)
next
  assume "(\<forall>l. sout3 l = None) \<and> ok_tasks s3 \<le> total_tasks s3"
  then show "\<exists>rep3. generate_report sout3 p3 s3 = (rep3, Inr (failed_tasks s3 = 0))"
    by (intro generate_report_total) simp_all
qed

theorem exit_status_follows_report_witness:
  "parse_log scenario_loads (single_file (ustr ''run.log'') []) utf8_strict
     (log_file_arg scenario_argv) empty_stats = ([], Inr (Some empty_stats)) \<and>
   generate_report utf8_strict (log_file_arg scenario_argv) empty_stats =
     (report_header (ustr ''run.log'') @ report_statistics empty_stats, Inr True) \<and>
   failed_tasks empty_stats = 0 \<and> total_tasks empty_stats = 0 \<and>
   main scenario_loads (single_file (ustr ''run.log'') []) utf8_strict scenario_argv =
     (report_header (ustr ''run.log'') @ report_statistics empty_stats, 0) \<and>
   parse_log scenario_loads (single_file surrogate_path []) utf8_strict
     (log_file_arg [ustr ''log-analyzer.py'', surrogate_path]) empty_stats =
       ([], Inr (Some empty_stats)) \<and>
   generate_report utf8_strict (log_file_arg [ustr ''log-analyzer.py'', surrogate_path])
     empty_stats = (take 3 (report_header surrogate_path), Inl UnicodeEncodeError) \<and>
   main scenario_loads (single_file surrogate_path []) utf8_strict
     [ustr ''log-analyzer.py'', surrogate_path] = (take 3 (report_header surrogate_path), 1) \<and>
   single_file (ustr ''run.log'') [] (log_file_arg [ustr ''log-analyzer.py'']) = Missing \<and>
   snd (main scenario_loads (single_file (ustr ''run.log'') []) utf8_strict
          [ustr ''log-analyzer.py'']) = 1 \<and>
   (\<forall>l. lenient l = None) \<and> ok_tasks scenario_stats \<le> total_tasks scenario_stats \<and>
   (\<exists>rep. generate_report lenient (ustr ''run.log'') scenario_stats = (rep, Inr False))"
proof -
  have p: "parse_log scenario_loads (single_file (ustr ''run.log'') []) utf8_strict
      (log_file_arg scenario_argv) empty_stats = ([], Inr (Some empty_stats))"
    by (simp add: scenario_path parse_log_single_file)
  have g: "generate_report utf8_strict (log_file_arg scenario_argv) empty_stats =
     (report_header (ustr ''run.log'') @ report_statistics empty_stats, Inr True)"
    by (simp add: scenario_path report_empty_stats)
  have p2: "parse_log scenario_loads (single_file surrogate_path []) utf8_strict
     (log_file_arg [ustr ''log-analyzer.py'', surrogate_path]) empty_stats =
       ([], Inr (Some empty_stats))"
    by (simp add: surrogate_argv parse_log_single_file)
  have g2: "generate_report utf8_strict (log_file_arg [ustr ''log-analyzer.py'', surrogate_path])
     empty_stats = (take 3 (report_header surrogate_path), Inl UnicodeEncodeError)"
    by (simp add: surrogate_argv report_surrogate_path)
  have m: "single_file (ustr ''run.log'') [] (log_file_arg [ustr ''log-analyzer.py'']) = Missing"
    by (simp add: default_path single_file_def ustr_eq)
  have l: "\<forall>l. lenient l = None" by (simp add: lenient_def)
  have o: "ok_tasks scenario_stats \<le> total_tasks scenario_stats"
    "failed_tasks scenario_stats \<noteq> 0" by (simp_all add: scenario_stats_def)
  from exit_status_follows_report[of scenario_loads "single_file (ustr ''run.log'') []"
      utf8_strict scenario_argv "[]" empty_stats
      "report_header (ustr ''run.log'') @ report_statistics empty_stats" True
      "[]" UnicodeEncodeError "single_file (ustr ''run.log'') []"
      "[ustr ''log-analyzer.py'']" OSError "[]" scenario_loads utf8_strict
      lenient scenario_stats "ustr ''run.log''"]
    exit_status_follows_report[of scenario_loads "single_file surrogate_path []"
      utf8_strict "[ustr ''log-analyzer.py'', surrogate_path]" "[]" empty_stats
      "[]" True "take 3 (report_header surrogate_path)" UnicodeEncodeError
      "single_file (ustr ''run.log'') []"
      "[ustr ''log-analyzer.py'']" OSError "[]" scenario_loads utf8_strict
      lenient scenario_stats "ustr ''run.log''"]
    p g p2 g2 m l o
  show ?thesis by (simp add: empty_stats_fields)
qed

text \<open>
  The claim as stated fails when a \<open>print\<close> of the report raises. The log is an existing
  empty file whose name holds the lone surrogate U+DCFF, and standard output is strict
  UTF-8: the parse step completes with \<open>failed_tasks = 0\<close>, the line \<open>Log file: ...\<close>
  raises \<open>UnicodeEncodeError\<close>, \<open>generate_report\<close> returns no value, and the exit
  status is 1.
\<close>

theorem unprintable_path_exits_1:
  "parse_log scenario_loads (single_file surrogate_path []) utf8_strict
     (log_file_arg [ustr ''log-analyzer.py'', surrogate_path]) empty_stats =
       ([], Inr (Some empty_stats)) \<and>
   failed_tasks empty_stats = 0 \<and>
   snd (generate_report utf8_strict surrogate_path empty_stats) = Inl UnicodeEncodeError \<and>
   snd (main scenario_loads (single_file surrogate_path []) utf8_strict
          [ustr ''log-analyzer.py'', surrogate_path]) = 1"
proof -
  have p: "parse_log scenario_loads (single_file surrogate_path []) utf8_strict
     surrogate_path empty_stats = ([], Inr (Some empty_stats))"
    by (simp add: parse_log_single_file)
  show ?thesis
    by (simp add: surrogate_argv p report_surrogate_path main_def Let_def empty_stats_fields)
qed

text \<open>
  Claim C3, as amended. The step returns, with the effect of the specification's table,
  on every record of the data model: a JSON object whose \<open>event_data\<close>, when present, is
  a JSON object whose \<open>remote_addr\<close>, when present, is no array and no object. Every line
  that decodes is handed to the step, and a line is dropped before it only when its
  decoding raises \<open>JSONDecodeError\<close>.
\<close>

theorem log_records_never_raise:
  "(log_record r \<longrightarrow> process_entry s r = Inr (effect s r)) \<and>
   (loads (strip l) = Inr r' \<longrightarrow>
      read_lines loads s (l # rest) =
        and_then (process_entry s r') (\<lambda>s'. read_lines loads s' rest)) \<and>
   (loads (strip l') = Inl JSONDecodeError \<longrightarrow>
      read_lines loads s (l' # rest) = read_lines loads s rest)"
proof (intro conjI impI)
  assume "log_record r"
  then obtain s' where s': "process_entry s r = Inr s'"
    using log_record_returns by blast
  from process_entry_effect[OF this] s' show "process_entry s r = Inr (effect s r)" by simp
next
  assume "loads (strip l) = Inr r'"
  then show "read_lines loads s (l # rest) =
        and_then (process_entry s r') (\<lambda>s'. read_lines loads s' rest)"
    by (rule read_lines_decoded)
next
  assume "loads (strip l') = Inl JSONDecodeError"
  then show "read_lines loads s (l' # rest) = read_lines loads s rest"
    by (rule read_lines_skip)
qed

theorem log_records_never_raise_witness:
  "log_record ok_record \<and>
   process_entry empty_stats ok_record = Inr (effect empty_stats ok_record) \<and>
   scenario_loads (strip (ok_text @ [10])) = Inr ok_record \<and>
   read_lines scenario_loads empty_stats [ok_text @ [10]] =
     and_then (process_entry empty_stats ok_record) (\<lambda>s'. read_lines scenario_loads s' []) \<and>
   scenario_loads (strip (ustr ''not json'' @ [10])) = Inl JSONDecodeError \<and>
   read_lines scenario_loads empty_stats [ustr ''not json'' @ [10]] = Inr empty_stats"
  using log_records_never_raise[of ok_record empty_stats scenario_loads "ok_text @ [10]" ok_record
      "[]" "ustr ''not json'' @ [10]"]
  by (simp add: log_record_ok_record strip_ok_line loads_ok strip_not_json loads_not_json)

text \<open>
  The claim as stated fails on a well-formed JSON value that is no object: on the number 5
  the membership test \<open>'event_data' not in entry\<close> raises \<open>TypeError\<close>, the outer
  handler of \<open>parse_log\<close> reports it, and the run ends with the exit status 1.
\<close>

theorem bare_number_aborts_run:
  "process_entry empty_stats (JInt 5) = Inl TypeError \<and>
   main scenario_loads (single_file (ustr ''run.log'') [ustr ''5'' @ [10]]) utf8_strict
     scenario_argv = ([[Lit ''Error reading log file: '', Exc TypeError]], 1)"
  by (simp add: main_def Let_def scenario_path parse_log_single_file loads_five
      process_entry_def and_then_def report_error_single utf8_strict_def)

text \<open>
  Claim C4, as amended. Let the decoding of the line \<open>g\<close> raise \<open>JSONDecodeError\<close>, as it
  does on text that is not JSON. A log with \<open>g\<close> inserted at any position gives the same
  result of the read loop from every state (the same final state, or the same exception),
  the same result of \<open>parse_log\<close> (the same printed text and state) and the same result
  of \<open>main\<close> (the same report and exit status) as the log without it.
\<close>

theorem garbage_line_changes_nothing:
  assumes "loads (strip g) = Inl JSONDecodeError"
    and "fs1 (log_file_arg argv) = Content (xs @ g # ys) fault"
    and "fs2 (log_file_arg argv) = Content (xs @ ys) fault"
  shows "read_lines loads s (xs @ g # ys) = read_lines loads s (xs @ ys) \<and>
         parse_log loads fs1 sout (log_file_arg argv) empty_stats =
           parse_log loads fs2 sout (log_file_arg argv) empty_stats \<and>
         main loads fs1 sout argv = main loads fs2 sout argv"
proof (intro conjI)
  show "read_lines loads s (xs @ g # ys) = read_lines loads s (xs @ ys)"
    using assms(1) by (rule read_lines_insert_skipped)
  show p: "parse_log loads fs1 sout (log_file_arg argv) empty_stats =
           parse_log loads fs2 sout (log_file_arg argv) empty_stats"
    using assms by (rule run_insert_skipped)
  then show "main loads fs1 sout argv = main loads fs2 sout argv"
    by (rule main_same_parse)
qed

theorem garbage_line_changes_nothing_witness:
  "scenario_loads (strip (ustr ''not json'' @ [10])) = Inl JSONDecodeError \<and>
   single_file (ustr ''run.log'') scenario_lines (log_file_arg scenario_argv) =
     Content ([ok_text @ [10], failed_text @ [10]] @ (ustr ''not json'' @ [10]) # []) None \<and>
   read_lines scenario_loads empty_stats scenario_lines =
     read_lines scenario_loads empty_stats [ok_text @ [10], failed_text @ [10]] \<and>
   main scenario_loads (single_file (ustr ''run.log'') scenario_lines) utf8_strict
       scenario_argv =
     main scenario_loads (single_file (ustr ''run.log'') [ok_text @ [10], failed_text @ [10]])
       utf8_strict scenario_argv"
  using garbage_line_changes_nothing[of scenario_loads "ustr ''not json'' @ [10]"
      "single_file (ustr ''run.log'') scenario_lines" scenario_argv
      "[ok_text @ [10], failed_text @ [10]]" "[]" None
      "single_file (ustr ''run.log'') [ok_text @ [10], failed_text @ [10]]" empty_stats
      utf8_strict]
  by (simp add: strip_not_json loads_not_json scenario_path single_file_same scenario_lines_def)

text \<open>
  The claim as stated fails on a line whose decoding fails with another exception. On a
  line of 100000 opening brackets \<open>json.loads\<close> raises \<open>RecursionError\<close>, which the inner
  handler does not catch: the run with the line prints \<open>Error reading log file: ...\<close>
  and ends with the exit status 1, the run on the same log without it (the empty log)
  prints the report and ends with the exit status 0.
\<close>

theorem deep_line_aborts_run:
  "scenario_loads (strip (deep_text @ [10])) = Inl RecursionError \<and>
   main scenario_loads (single_file (ustr ''run.log'') ([] @ (deep_text @ [10]) # []))
     utf8_strict scenario_argv = ([[Lit ''Error reading log file: '', Exc RecursionError]], 1) \<and>
   main scenario_loads (single_file (ustr ''run.log'') ([] @ [])) utf8_strict scenario_argv =
     (report_header (ustr ''run.log'') @ report_statistics empty_stats, 0)"
  by (simp add: strip_deep_line loads_deep main_def Let_def scenario_path parse_log_single_file
      and_then_def report_error_single utf8_strict_def report_empty_stats)

text \<open>
  Claim C5. Whenever the loader returns the state \<open>s\<close> from the empty state,
  \<open>failed_tasks\<close> is the length of \<open>failed_details\<close>, and \<open>failed_details\<close> holds one
  entry for each decoded \<open>runner_on_failed\<close> record that carries \<open>event_data\<close>, in the
  order of the lines. A step that returns on such a record appends exactly one entry, with
  \<open>Unknown\<close>, \<open>Unknown\<close> and \<open>No error message\<close> in the place of a missing \<open>task\<close>,
  \<open>remote_addr\<close> and \<open>msg\<close>; and the step does return on every record of the data model.
\<close>

theorem failed_details_follow_failures:
  "(read_lines loads empty_stats ls = Inr s \<longrightarrow>
      failed_tasks s = length (failed_details s) \<and>
      failed_details s =
        map failure_of (filter (is_event ''runner_on_failed'') (decoded loads ls))) \<and>
   (process_entry s0 r = Inr s1 \<and> is_event ''runner_on_failed'' r \<longrightarrow>
      failed_details s1 = failed_details s0 @
        [\<lparr>task = (case field_of ''task'' r of None \<Rightarrow> JStr (ustr ''Unknown'') | Some v \<Rightarrow> v),
          host = (case field_of ''remote_addr'' r of None \<Rightarrow> JStr (ustr ''Unknown'') | Some v \<Rightarrow> v),
          error = (case field_of ''msg'' r of None \<Rightarrow> JStr (ustr ''No error message'')
                   | Some v \<Rightarrow> v)\<rparr>]) \<and>
   (log_record r \<longrightarrow> (\<exists>s2. process_entry s0 r = Inr s2))"
proof (intro conjI impI)
  assume "read_lines loads empty_stats ls = Inr s"
  then have s: "s = foldl effect empty_stats (decoded loads ls)"
    by (rule read_lines_effect)
  show "failed_tasks s = length (failed_details s)"
    unfolding s by (simp add: failed_tasks_foldl failed_details_foldl empty_stats_def)
  show "failed_details s =
        map failure_of (filter (is_event ''runner_on_failed'') (decoded loads ls))"
    unfolding s by (simp add: failed_details_foldl empty_stats_def)
next
  assume a: "process_entry s0 r = Inr s1 \<and> is_event ''runner_on_failed'' r"
  then have "s1 = effect s0 r" by (simp add: process_entry_effect)
  with a have "failed_details s1 = failed_details s0 @ [failure_of r]"
    by (simp add: failed_details_effect)
  then show "failed_details s1 = failed_details s0 @
        [\<lparr>task = (case field_of ''task'' r of None \<Rightarrow> JStr (ustr ''Unknown'') | Some v \<Rightarrow> v),
          host = (case field_of ''remote_addr'' r of None \<Rightarrow> JStr (ustr ''Unknown'') | Some v \<Rightarrow> v),
          error = (case field_of ''msg'' r of None \<Rightarrow> JStr (ustr ''No error message'')
                   | Some v \<Rightarrow> v)\<rparr>]"
    by (simp add: failure_of_def or_default_def)
next
  assume "log_record r"
  then show "\<exists>s2. process_entry s0 r = Inr s2" by (rule log_record_returns)
qed

theorem failed_details_follow_failures_witness:
  "read_lines scenario_loads empty_stats scenario_lines = Inr scenario_stats \<and>
   failed_tasks scenario_stats = length (failed_details scenario_stats) \<and>
   failed_details scenario_stats = map failure_of [failed_record] \<and>
   process_entry empty_stats bare_failed_record =
     Inr (empty_stats\<lparr>total_tasks := 1, failed_tasks := 1, failed_details :=
            [\<lparr>task = JStr (ustr ''Unknown''), host = JStr (ustr ''Unknown''),
              error = JStr (ustr ''No error message'')\<rparr>]\<rparr>) \<and>
   is_event ''runner_on_failed'' bare_failed_record \<and>
   field_of ''task'' bare_failed_record = None \<and>
   field_of ''remote_addr'' bare_failed_record = None \<and>
   field_of ''msg'' bare_failed_record = None \<and>
   log_record bare_failed_record"
proof -
  have lr: "log_record bare_failed_record"
    by (simp add: log_record_def bare_failed_record_def ustr_eq)
  have step: "process_entry empty_stats bare_failed_record =
     Inr (empty_stats\<lparr>total_tasks := 1, failed_tasks := 1, failed_details :=
            [\<lparr>task = JStr (ustr ''Unknown''), host = JStr (ustr ''Unknown''),
              error = JStr (ustr ''No error message'')\<rparr>]\<rparr>)"
    by (simp add: process_bare_failed_record empty_stats_fields)
  have ev: "is_event ''runner_on_failed'' bare_failed_record"
    by (simp add: is_event_bare_failed_record)
  have f: "field_of ''task'' bare_failed_record = None"
    "field_of ''remote_addr'' bare_failed_record = None"
    "field_of ''msg'' bare_failed_record = None"
    by (simp_all add: field_of_def event_data_of_def bare_failed_record_def ustr_eq)
  have d: "filter (is_event ''runner_on_failed'') (decoded scenario_loads scenario_lines) =
      [failed_record]"
    by (simp add: scenario_decoded is_event_ok_record is_event_failed_record)
  from failed_details_follow_failures[of scenario_loads scenario_lines scenario_stats
      empty_stats bare_failed_record
      "empty_stats\<lparr>total_tasks := 1, failed_tasks := 1, failed_details :=
            [\<lparr>task = JStr (ustr ''Unknown''), host = JStr (ustr ''Unknown''),
              error = JStr (ustr ''No error message'')\<rparr>]\<rparr>"]
    scenario_run step ev f d lr
  show ?thesis by simp
qed

text \<open>
  Claim C6, as amended. When nothing exists at the path of the log, \<open>main\<close> ends with
  the exit status 1 and prints no line of the report: its whole output is the one line
  \<open>Error: Log file ... not found\<close> when standard output writes that line, and nothing
  when the \<open>print\<close> of that line raises.
\<close>

theorem missing_file_no_report:
  assumes "fs (log_file_arg argv) = Missing"
  shows "main loads fs sout argv =
           (if sout [Lit ''Error: Log file '', Str (log_file_arg argv), Lit '' not found''] = None
            then [[Lit ''Error: Log file '', Str (log_file_arg argv), Lit '' not found'']]
            else [], 1)"
  using assms
  by (cases "sout [Lit ''Error: Log file '', Str (log_file_arg argv), Lit '' not found'']")
    (simp_all add: main_def Let_def parse_log_def report_error_single)

theorem missing_file_no_report_witness:
  "single_file (ustr ''run.log'') [] (log_file_arg [ustr ''log-analyzer.py'']) = Missing \<and>
   utf8_strict [Lit ''Error: Log file '', Str (log_file_arg [ustr ''log-analyzer.py'']),
                Lit '' not found''] = None \<and>
   main scenario_loads (single_file (ustr ''run.log'') []) utf8_strict [ustr ''log-analyzer.py''] =
     ([[Lit ''Error: Log file '', Str (ustr ''/var/log/ansible/ansible.log''),
        Lit '' not found'']], 1)"
proof -
  have m: "single_file (ustr ''run.log'') [] (log_file_arg [ustr ''log-analyzer.py'']) = Missing"
    by (simp add: default_path single_file_def ustr_eq)
  have u: "utf8_strict [Lit ''Error: Log file '', Str (log_file_arg [ustr ''log-analyzer.py'']),
                Lit '' not found''] = None"
    by (simp add: default_path utf8_strict_def plain_text)
  from missing_file_no_report[of "single_file (ustr ''run.log'') []"
      "[ustr ''log-analyzer.py'']" scenario_loads utf8_strict] m u
  show ?thesis by (simp add: default_path)
qed

text \<open>
  The claim as stated fails when the \<open>print\<close> of the diagnostic line raises. Nothing
  exists at a path that holds the lone surrogate U+DCFF, and standard output is strict
  UTF-8: the line \<open>Error: Log file ... not found\<close> raises \<open>UnicodeEncodeError\<close> outside
  every handler, nothing is printed on standard output, and the exit status is 1.
\<close>

theorem unprintable_missing_path_prints_nothing:
  "single_file (ustr ''run.log'') []
     (log_file_arg [ustr ''log-analyzer.py'', surrogate_path]) = Missing \<and>
   main scenario_loads (single_file (ustr ''run.log'') []) utf8_strict
     [ustr ''log-analyzer.py'', surrogate_path] = ([], 1)"
proof -
  have ne: "surrogate_path \<noteq> ustr ''run.log''"
    by (simp add: surrogate_path_def ustr_def)
  show ?thesis
    by (simp add: surrogate_argv ne main_def Let_def parse_log_def single_file_def
        report_error_single utf8_strict_def surrogate_text)
qed

text \<open>
  Claim C7, as amended. Let \<open>generate_report\<close> return, so that every \<open>print\<close> of it has
  written its line. When \<open>total_tasks\<close> is 0 the report is the header, the statistics
  and the block of failed tasks, and it has no success-rate line. When \<open>total_tasks\<close> is
  not 0 the report is these, followed by the line \<open>Success rate: \<close>, the value
  \<open>(ok_tasks / total_tasks) * 100\<close> of line 104 in the format \<open>.1f\<close>, and \<open>%\<close>; it
  is the only line that opens with \<open>Success rate: \<close>. For \<open>ok_tasks \<le> total_tasks\<close>
  the text of the value is a numeral with one decimal place that differs from the exact
  percentage by at most 0.05 and the rounding error \<open>41 / 2 ^ 51\<close> of the two floating
  point operations, and by at most 0.05 (it is a nearest numeral with one place) below
  \<open>2 ^ 41\<close> tasks.
\<close>

theorem success_rate_line:
  assumes "generate_report sout p s = (printed, Inr b)"
  shows "(total_tasks s = 0 \<longrightarrow>
            printed = report_header p @ report_statistics s @ report_failed s \<and>
            filter rate_line printed = []) \<and>
         (0 < total_tasks s \<longrightarrow>
            (\<exists>y. success_rate (ok_tasks s) (total_tasks s) = Inr y \<and>
                 printed = report_header p @ report_statistics s @ report_failed s @
                             [[Lit ''Success rate: '', Lit (fmt_1f y), Lit ''%'']] \<and>
                 filter rate_line printed =
                   [[Lit ''Success rate: '', Lit (fmt_1f y), Lit ''%'']])) \<and>
         (0 < total_tasks s \<and> ok_tasks s \<le> total_tasks s \<longrightarrow>
            (\<exists>n. filter rate_line printed =
                   [[Lit ''Success rate: '', Lit (one_decimal n), Lit ''%'']] \<and>
                 \<bar>of_nat n / 10 - of_nat (ok_tasks s) / of_nat (total_tasks s) * 100\<bar>
                   \<le> (1 / 20 + 41 / 2 ^ 51 :: rat) \<and>
                 (total_tasks s < 2 ^ 41 \<longrightarrow>
                    \<bar>of_nat n / 10 - of_nat (ok_tasks s) / of_nat (total_tasks s) * 100\<bar>
                      \<le> (1 / 20 :: rat))))"
proof (intro conjI impI)
  assume z: "total_tasks s = 0"
  from generate_report_returns(2)[OF assms z]
  show pr: "printed = report_header p @ report_statistics s @ report_failed s" .
  show "filter rate_line printed = []"
    unfolding pr by (simp add: no_rate_line_header no_rate_line_statistics no_rate_line_failed)
next
  assume pos: "0 < total_tasks s"
  from generate_report_returns(3)[OF assms pos] obtain y where
    y: "success_rate (ok_tasks s) (total_tasks s) = Inr y" and
    pr: "printed = report_header p @ report_statistics s @ report_failed s @ [rate_line_of y]"
    by blast
  have "filter rate_line printed = [rate_line_of y]"
    unfolding pr
    by (simp add: no_rate_line_header no_rate_line_statistics no_rate_line_failed
        rate_line_rate_line_of)
  with y pr show "\<exists>y. success_rate (ok_tasks s) (total_tasks s) = Inr y \<and>
      printed = report_header p @ report_statistics s @ report_failed s @
                  [[Lit ''Success rate: '', Lit (fmt_1f y), Lit ''%'']] \<and>
      filter rate_line printed = [[Lit ''Success rate: '', Lit (fmt_1f y), Lit ''%'']]"
    by (auto simp: rate_line_of_def)
next
  assume a: "0 < total_tasks s \<and> ok_tasks s \<le> total_tasks s"
  then have pos: "0 < total_tasks s" and le: "ok_tasks s \<le> total_tasks s" by simp_all
  from generate_report_returns(3)[OF assms pos] obtain y where
    y: "success_rate (ok_tasks s) (total_tasks s) = Inr y" and
    pr: "printed = report_header p @ report_statistics s @ report_failed s @ [rate_line_of y]"
    by blast
  from success_rate_close[OF pos le] obtain y' n where
    y': "success_rate (ok_tasks s) (total_tasks s) = Inr (Finite y')" and
    n: "fmt_1f (Finite y') = one_decimal n" and
    c: "\<bar>of_nat n / 10 - of_nat (ok_tasks s) / of_nat (total_tasks s) * 100\<bar>
          \<le> (1 / 20 + 41 / 2 ^ 51 :: rat)"
    by blast
  from y y' have "y = Finite y'" by simp
  with n have l: "rate_line_of y = [Lit ''Success rate: '', Lit (one_decimal n), Lit ''%'']"
    by (simp add: rate_line_of_def)
  have f: "filter rate_line printed = [[Lit ''Success rate: '', Lit (one_decimal n), Lit ''%'']]"
    unfolding pr
    by (simp add: no_rate_line_header no_rate_line_statistics no_rate_line_failed
        rate_line_rate_line_of l[symmetric])
  have t: "total_tasks s < 2 ^ 41 \<longrightarrow>
      \<bar>of_nat n / 10 - of_nat (ok_tasks s) / of_nat (total_tasks s) * 100\<bar> \<le> (1 / 20 :: rat)"
    using nearest_tenth[OF pos _ c] by blast
  from f c t show "\<exists>n. filter rate_line printed =
                   [[Lit ''Success rate: '', Lit (one_decimal n), Lit ''%'']] \<and>
                 \<bar>of_nat n / 10 - of_nat (ok_tasks s) / of_nat (total_tasks s) * 100\<bar>
                   \<le> (1 / 20 + 41 / 2 ^ 51 :: rat) \<and>
                 (total_tasks s < 2 ^ 41 \<longrightarrow>
                    \<bar>of_nat n / 10 - of_nat (ok_tasks s) / of_nat (total_tasks s) * 100\<bar>
                      \<le> (1 / 20 :: rat))"
    by blast
qed

theorem success_rate_line_witness:
  "generate_report utf8_strict (ustr ''run.log'') scenario_stats =
     (report_header (ustr ''run.log'') @ report_statistics scenario_stats @
      report_failed scenario_stats @ [[Lit ''Success rate: '', Lit ''50.0'', Lit ''%'']],
      Inr False) \<and>
   total_tasks scenario_stats = 2 \<and> ok_tasks scenario_stats = 1 \<and>
   success_rate 1 2 = Inr (Finite 50) \<and> fmt_1f (Finite 50) = ''50.0'' \<and>
   filter rate_line (report_header (ustr ''run.log'') @ report_statistics scenario_stats @
      report_failed scenario_stats @ [[Lit ''Success rate: '', Lit ''50.0'', Lit ''%'']]) =
     [[Lit ''Success rate: '', Lit ''50.0'', Lit ''%'']]"
proof -
  note g = report_scenario_stats
  from success_rate_line[OF g] scenario_stats_fields scenario_rate success_rate_1_2 fmt_50 g
  show ?thesis by auto
qed

text \<open>
  The claim as stated fails when a \<open>print\<close> of the report raises. A failed task whose
  name is the lone surrogate U+DCFF gives a state with \<open>total_tasks = 1\<close>; on a strict
  UTF-8 standard output the line \<open>Task: ...\<close> raises \<open>UnicodeEncodeError\<close>, the report
  ends there, and it has no success-rate line.
\<close>

theorem unprintable_task_no_rate_line:
  "process_entry empty_stats surrogate_record = Inr surrogate_stats \<and>
   total_tasks surrogate_stats = 1 \<and>
   generate_report utf8_strict (ustr ''run.log'') surrogate_stats =
     (report_header (ustr ''run.log'') @ report_statistics surrogate_stats @
      [[Lit ''FAILED TASKS DETAILS:''], [Lit (replicate 30 CHR ''-'')]],
      Inl UnicodeEncodeError) \<and>
   filter rate_line (fst (generate_report utf8_strict (ustr ''run.log'') surrogate_stats)) = []"
proof -
  have t: "total_tasks surrogate_stats = 1"
    by (simp add: surrogate_stats_def)
  have f1: "\<not> rate_line [Lit (replicate 30 CHR ''-'')]"
    by (rule rule_not_rate_line) simp
  have f2: "\<not> rate_line [Lit ''FAILED TASKS DETAILS:'']"
    by (simp add: rate_line_def)
  show ?thesis
    unfolding report_surrogate_stats
    by (simp add: process_surrogate_record t no_rate_line_header no_rate_line_statistics f1 f2)
qed

text \<open>
  Claim C8. Whenever the loader returns the state \<open>s\<close> from the empty state, \<open>hosts\<close> is
  the set of the \<open>remote_addr\<close> values in the \<open>event_data\<close> of the decoded records,
  whatever their \<open>event\<close> is; its size is the number of distinct values among them; and
  every such value is a member.
\<close>

theorem hosts_are_remote_addrs:
  assumes "read_lines loads empty_stats ls = Inr s"
  shows "hosts s = set (concat (map host_keys (decoded loads ls))) \<and>
         card (hosts s) = length (remdups (concat (map host_keys (decoded loads ls)))) \<and>
         (\<forall>r \<in> set (decoded loads ls). \<forall>a. field_of ''remote_addr'' r = Some a \<longrightarrow>
            (\<exists>k. set_key a = Inr k \<and> k \<in> hosts s))"
proof (intro conjI ballI allI impI)
  from assms have s: "s = foldl effect empty_stats (decoded loads ls)"
    by (rule read_lines_effect)
  show h: "hosts s = set (concat (map host_keys (decoded loads ls)))"
    unfolding s by (simp add: hosts_foldl empty_stats_def)
  show "card (hosts s) = length (remdups (concat (map host_keys (decoded loads ls))))"
    unfolding h by (rule List.card_set)
  fix r a
  assume r: "r \<in> set (decoded loads ls)" and a: "field_of ''remote_addr'' r = Some a"
  from read_lines_member[OF assms r] obtain s0 s1 where "process_entry s0 r = Inr s1"
    by blast
  from process_entry_hashable[OF this a] obtain k where k: "set_key a = Inr k" by blast
  with a have "host_keys r = [k]" by (simp add: host_keys_def)
  with r have "k \<in> hosts s" unfolding h by force
  with k show "\<exists>k. set_key a = Inr k \<and> k \<in> hosts s" by blast
qed

theorem hosts_are_remote_addrs_witness:
  "read_lines scenario_loads empty_stats scenario_lines = Inr scenario_stats \<and>
   hosts scenario_stats = {HStr (ustr ''10.0.0.1''), HStr (ustr ''10.0.0.2'')} \<and>
   card (hosts scenario_stats) = 2"
  using hosts_are_remote_addrs[of scenario_loads scenario_lines scenario_stats]
  by (simp add: scenario_run scenario_decoded host_keys_ok_record host_keys_failed_record
      ustr_eq)

text \<open>
  Claim C9. Whenever the loader returns the state \<open>s\<close> from the empty state,
  \<open>changed_tasks \<le> ok_tasks \<le> total_tasks\<close>. A step that returns adds 1 to
  \<open>changed_tasks\<close> when the record is a \<open>runner_on_ok\<close> record with a truthy \<open>changed\<close>,
  and leaves it as it was on every other record, a failed or skipped one with a truthy
  \<open>changed\<close> among them.
\<close>

theorem changed_le_ok_le_total:
  "(read_lines loads empty_stats ls = Inr s \<longrightarrow>
      changed_tasks s \<le> ok_tasks s \<and> ok_tasks s \<le> total_tasks s) \<and>
   (process_entry s0 r = Inr s1 \<longrightarrow>
      changed_tasks s1 =
        changed_tasks s0 + (if is_event ''runner_on_ok'' r \<and> changed_of r then 1 else 0))"
proof (intro conjI impI)
  assume "read_lines loads empty_stats ls = Inr s"
  then have s: "s = foldl effect empty_stats (decoded loads ls)"
    by (rule read_lines_effect)
  have "length (filter (\<lambda>r. is_event ''runner_on_ok'' r \<and> changed_of r) (decoded loads ls))
        \<le> length (filter (is_event ''runner_on_ok'') (decoded loads ls))"
    by (rule length_filter_conj_le)
  then show "changed_tasks s \<le> ok_tasks s"
    unfolding s by (simp add: changed_tasks_foldl ok_tasks_foldl empty_stats_def)
  show "ok_tasks s \<le> total_tasks s"
    unfolding s by (simp add: total_tasks_foldl ok_tasks_foldl empty_stats_def)
next
  assume "process_entry s0 r = Inr s1"
  then have "s1 = effect s0 r" by (rule process_entry_effect)
  then show "changed_tasks s1 =
        changed_tasks s0 + (if is_event ''runner_on_ok'' r \<and> changed_of r then 1 else 0)"
    by (simp add: changed_tasks_effect)
qed

theorem changed_le_ok_le_total_witness:
  "read_lines scenario_loads empty_stats scenario_lines = Inr scenario_stats \<and>
   changed_tasks scenario_stats \<le> ok_tasks scenario_stats \<and>
   ok_tasks scenario_stats \<le> total_tasks scenario_stats \<and>
   process_entry scenario_stats skipped_record =
     Inr (scenario_stats\<lparr>skipped_tasks := 1\<rparr>) \<and>
   changed_of skipped_record \<and>
   changed_tasks (scenario_stats\<lparr>skipped_tasks := 1\<rparr>) = changed_tasks scenario_stats"
  using changed_le_ok_le_total[of scenario_loads scenario_lines scenario_stats
      scenario_stats skipped_record "scenario_stats\<lparr>skipped_tasks := 1\<rparr>"]
  by (simp add: scenario_run process_skipped_record changed_of_skipped_record
      is_event_skipped_record scenario_stats_def insert_commute)



end
